theory Spec2Isabelle
  imports Main
begin

section \<open>The form-filling orchestrator of \<open>scrapybara_automation.py\<close>\<close>

text \<open>
  A shallow embedding of class \<open>EZLynxFormAutomation\<close>. The object's fields are a record
  that every method takes and returns. The two external collaborators are parameters of
  the methods: the remote desktop (what constructing and initialising
  \<open>AsyncScrapybaraUbuntu\<close> did, what \<open>stop\<close> did) and the agent runtime (\<open>Runner.run\<close>, a
  function from the agent, its input and the turn budget to an exception or a result).
  An exception is a value; \<open>str(e)\<close> is \<open>str_exn\<close>.

  Python's \<open>str\<close> is modelled by \<open>string\<close> with one \<open>char\<close> per code point, so the texts
  covered are those of code points below 256. Values read from the two JSON files are
  strings (as \<open>app.py\<close> and \<open>simple_eml_parser.py\<close> write them); a key that is absent and a
  key bound to \<open>null\<close> are both \<open>None\<close>. The timestamp of a log entry (the event loop's
  clock) and the files written on the way (the log file, the instance id file on success,
  the screenshot directory) are left out; writing the log file is taken to succeed.
\<close>

subsection \<open>Python values, exceptions and strings\<close>

datatype exn =
    TypeError string
  | KeyError string
  | IndexError string
  | ValueError string
  | AttributeError string
  | Exception string

text \<open>\<open>str(e)\<close>: the message; for a \<open>KeyError\<close> the \<open>repr\<close> of the key.\<close>

fun str_exn :: "exn \<Rightarrow> string" where
  "str_exn (TypeError m) = m"
| "str_exn (KeyError k) = [CHR 0x27] @ k @ [CHR 0x27]"
| "str_exn (IndexError m) = m"
| "str_exn (ValueError m) = m"
| "str_exn (AttributeError m) = m"
| "str_exn (Exception m) = m"

text \<open>The JSON-like values an item of a conversation can hold.\<close>

datatype pyval =
    PNone
  | PBool bool
  | PInt int
  | PStr string
  | PList "pyval list"
  | PDict "(string \<times> pyval) list"

text \<open>Truth value testing, as \<open>if v:\<close> does it.\<close>

fun truthy :: "pyval \<Rightarrow> bool" where
  "truthy PNone = False"
| "truthy (PBool b) = b"
| "truthy (PInt n) = (n \<noteq> 0)"
| "truthy (PStr s) = (s \<noteq> [])"
| "truthy (PList xs) = (xs \<noteq> [])"
| "truthy (PDict d) = (d \<noteq> [])"

text \<open>
  A \<open>dict\<close> is an association list in insertion order with distinct keys.
  \<open>d[k] = v\<close> overwrites in place or appends; \<open>d.get(k)\<close> is \<open>None\<close> for a missing key.
\<close>

fun dict_set :: "'k \<Rightarrow> 'v \<Rightarrow> ('k \<times> 'v) list \<Rightarrow> ('k \<times> 'v) list" where
  "dict_set k v [] = [(k, v)]"
| "dict_set k v ((k', v') # d) =
     (if k' = k then (k, v) # d else (k', v') # dict_set k v d)"

definition dict_get :: "(string \<times> pyval) list \<Rightarrow> string \<Rightarrow> pyval" where
  "dict_get d k = (case map_of d k of None \<Rightarrow> PNone | Some v \<Rightarrow> v)"

text \<open>\<open>del v[k]\<close> for a string key \<open>k\<close>: only a \<open>dict\<close> that has the key allows it.\<close>

definition no_item_deletion :: "string \<Rightarrow> exn" where
  "no_item_deletion tname =
     TypeError ([CHR 0x27] @ tname @ [CHR 0x27] @ '' object doesn't support item deletion'')"

fun py_delitem :: "pyval \<Rightarrow> string \<Rightarrow> exn + pyval" where
  "py_delitem (PDict d) k =
     (if map_of d k = None then Inl (KeyError k)
      else Inr (PDict (filter (\<lambda>(k', v). k' \<noteq> k) d)))"
| "py_delitem (PList xs) k = Inl (TypeError ''list indices must be integers or slices, not str'')"
| "py_delitem (PStr s) k = Inl (no_item_deletion ''str'')"
| "py_delitem (PInt n) k = Inl (no_item_deletion ''int'')"
| "py_delitem (PBool b) k = Inl (no_item_deletion ''bool'')"
| "py_delitem PNone k = Inl (no_item_deletion ''NoneType'')"

text \<open>\<open>str.isspace\<close> on the code points below 256, and \<open>str.strip()\<close>.\<close>

definition is_space :: "char \<Rightarrow> bool" where
  "is_space c =
     (let n = (of_char c :: nat)
      in (9 \<le> n \<and> n \<le> 13) \<or> (28 \<le> n \<and> n \<le> 32) \<or> n = 133 \<or> n = 160)"

definition lstrip :: "string \<Rightarrow> string" where
  "lstrip s = dropWhile is_space s"

definition rstrip :: "string \<Rightarrow> string" where
  "rstrip s = rev (dropWhile is_space (rev s))"

definition strip :: "string \<Rightarrow> string" where
  "strip s = rstrip (lstrip s)"

text \<open>\<open>sub in s\<close> on strings.\<close>

fun py_in :: "string \<Rightarrow> string \<Rightarrow> bool" where
  "py_in sub [] = (sub = [])"
| "py_in sub (c # cs) = (take (length sub) (c # cs) = sub \<or> py_in sub cs)"

text \<open>
  The leftmost occurrence of \<open>sep\<close> in \<open>s\<close>: the text before it and the text after it,
  \<open>None\<close> when \<open>sep\<close> does not occur.
\<close>

fun partition_str :: "string \<Rightarrow> string \<Rightarrow> (string \<times> string) option" where
  "partition_str sep [] = (if sep = [] then Some ([], []) else None)"
| "partition_str sep (c # cs) =
     (if take (length sep) (c # cs) = sep then Some ([], drop (length sep) (c # cs))
      else map_option (\<lambda>(a, b). (c # a, b)) (partition_str sep cs))"

lemma partition_str_Some:
  "partition_str sep s = Some (a, b) \<Longrightarrow> s = a @ sep @ b"
proof (induction s arbitrary: a)
  case Nil
  then show ?case by (simp split: if_splits)
next
  case (Cons c cs)
  show ?case
  proof (cases "take (length sep) (c # cs) = sep")
    case True
    with Cons.prems have ab: "a = []" "b = drop (length sep) (c # cs)" by simp_all
    have "take (length sep) (c # cs) @ drop (length sep) (c # cs) = c # cs"
      by (rule append_take_drop_id)
    with True ab show ?thesis by simp
  next
    case False
    with Cons.prems obtain a' where "partition_str sep cs = Some (a', b)" "a = c # a'"
      by auto
    with Cons.IH show ?thesis by simp
  qed
qed

text \<open>
  \<open>s.split(sep)\<close>: cut at the occurrences of \<open>sep\<close>, found from the left without overlap.
  Python raises \<open>ValueError\<close> on an empty separator, which \<open>py_split\<close> writes out.
\<close>

function split_str :: "string \<Rightarrow> string \<Rightarrow> string list" where
  "split_str sep s =
     (case partition_str sep s of
        None \<Rightarrow> [s]
      | Some (a, b) \<Rightarrow> if sep = [] then [s] else a # split_str sep b)"
  by pat_completeness auto
termination
proof (relation "measure (\<lambda>(sep, s). length s)")
  show "wf (measure (\<lambda>(sep, s). length s))" by simp
next
  fix sep s :: string and ab a b
  assume "partition_str sep s = Some ab" "(a, b) = ab" "sep \<noteq> []"
  then have "s = a @ sep @ b" using partition_str_Some by metis
  then have "length s = length a + length sep + length b" by simp
  moreover have "0 < length sep" using \<open>sep \<noteq> []\<close> by simp
  ultimately show "((sep, b), (sep, s)) \<in> measure (\<lambda>(sep, s). length s)" by simp
qed

declare split_str.simps [simp del]

definition py_split :: "string \<Rightarrow> string \<Rightarrow> exn + string list" where
  "py_split sep s = (if sep = [] then Inl (ValueError ''empty separator'') else Inr (split_str sep s))"

text \<open>\<open>sep.join(xs)\<close>.\<close>

fun join :: "string \<Rightarrow> string list \<Rightarrow> string" where
  "join sep [] = []"
| "join sep [x] = x"
| "join sep (x # y # ys) = x @ sep @ join sep (y # ys)"

text \<open>\<open>xs[i]\<close> for \<open>i \<ge> 0\<close>.\<close>

definition py_index :: "'a list \<Rightarrow> nat \<Rightarrow> exn + 'a" where
  "py_index xs i = (if i < length xs then Inr (xs ! i) else Inl (IndexError ''list index out of range''))"

text \<open>An f-string field \<open>{v}\<close> for a value that is a string or \<open>None\<close>.\<close>

definition format_opt :: "string option \<Rightarrow> string" where
  "format_opt v = (case v of None \<Rightarrow> ''None'' | Some s \<Rightarrow> s)"

text \<open>\<open>not v\<close> for a value that is a string or \<open>None\<close>.\<close>

definition py_not :: "string option \<Rightarrow> bool" where
  "py_not v = (case v of None \<Rightarrow> True | Some s \<Rightarrow> s = [])"

subsection \<open>The session\<close>

text \<open>
  The values of \<open>self.status\<close>: \<open>"initialized"\<close>, \<open>"initializing"\<close>, \<open>"logging_in"\<close>,
  \<open>"logged_in"\<close>, \<open>"filling_form"\<close>, \<open>"waiting_for_input"\<close>, \<open>"form_filled"\<close>,
  \<open>"completed"\<close> and \<open>"error"\<close>.
\<close>

datatype status =
    Initialized
  | Initializing
  | Logging_in
  | Logged_in
  | Filling_form
  | Waiting_for_input
  | Form_filled
  | Completed
  | Error

datatype level = Info | Warn | Err

record log_entry =
  level :: level
  message :: string

text \<open>The \<open>AsyncScrapybaraUbuntu\<close> object: \<open>computer_instance\<close> is its
  \<open>instance\<close> field (the id of the instance), \<open>None\<close> until one was started.\<close>

record computer_obj =
  computer_instance :: "string option"

text \<open>
  The fields of \<open>EZLynxFormAutomation\<close>. \<open>status_history\<close> is a history variable, not a
  field of the class: the values assigned to \<open>self.status\<close> so far, oldest first. Only
  \<open>set_status\<close> writes it and no method reads it.
\<close>

record session =
  credentials :: "string \<rightharpoonup> string"
  email_content :: "string \<rightharpoonup> string"
  instance_id :: "string option"
  status :: status
  log_entries :: "log_entry list"
  computer :: "computer_obj option"
  require_human_input :: bool
  human_input_prompt :: string
  human_input_field :: string
  human_inputs_collected :: "(string \<times> string) list"
  status_history :: "status list"

definition set_status :: "status \<Rightarrow> session \<Rightarrow> session" where
  "set_status s st = st\<lparr>status := s, status_history := status_history st @ [s]\<rparr>"

definition log :: "string \<Rightarrow> level \<Rightarrow> session \<Rightarrow> session" where
  "log msg lvl st = st\<lparr>log_entries := log_entries st @ [\<lparr>level = lvl, message = msg\<rparr>]\<rparr>"

text \<open>
  \<open>__init__\<close> with \<open>_load_data\<close>: what the two files held, or the exception reading them
  raised (then both records are empty and the error is logged).
\<close>

datatype load_outcome =
    Loaded "string \<rightharpoonup> string" "string \<rightharpoonup> string"
  | Load_failed exn

definition blank_session :: session where
  "blank_session =
     \<lparr>credentials = Map.empty, email_content = Map.empty, instance_id = None,
      status = Initialized, log_entries = [], computer = None,
      require_human_input = False, human_input_prompt = [], human_input_field = [],
      human_inputs_collected = [], status_history = [Initialized]\<rparr>"

fun new_session :: "load_outcome \<Rightarrow> session" where
  "new_session (Loaded creds email) = blank_session\<lparr>credentials := creds, email_content := email\<rparr>"
| "new_session (Load_failed e) = log (''Error loading data: '' @ str_exn e) Err blank_session"

subsection \<open>The collaborators\<close>

text \<open>
  What \<open>initialize_scrapybara\<close> met: the constructor raised; \<open>computer.initialize()\<close> raised
  and left \<open>computer.instance\<close> as given; the instance started and writing its id to the
  instance id file raised; or all of it went through.
\<close>

datatype init_outcome =
    Constructor_raised exn
  | Initialize_raised "string option" exn
  | Id_write_raised string exn
  | Started string

text \<open>
  \<open>Agent(name=..., instructions=...)\<close>, the input of a run (a prompt, or the items of a
  conversation) and what \<open>Runner.run\<close> returns: \<open>final_output\<close> and \<open>to_input_list()\<close>.
\<close>

record agent =
  name :: string
  instructions :: string

datatype agent_input = Prompt string | Items "(string \<times> pyval) list list"

record run_result =
  final_output :: string
  to_input_list :: "(string \<times> pyval) list list"

type_synonym runner = "agent \<Rightarrow> agent_input \<Rightarrow> nat \<Rightarrow> exn + run_result"

definition login_agent :: agent where
  "login_agent =
     \<lparr>name = ''EZLynx Login Agent'',
      instructions = ''You are a helpful agent that logs in to a website accurately. Be precise in your interactions.''\<rparr>"

definition form_agent :: agent where
  "form_agent =
     \<lparr>name = ''EZLynx Form Filling Agent'',
      instructions = ''You are a helpful agent that accurately fills out forms with provided information. Ask for human help when required fields don't have corresponding info. Leave non-required fields empty if info is not available.''\<rparr>"

text \<open>What the methods return: \<open>False\<close>, \<open>True\<close> or one of three dictionaries.\<close>

datatype outcome =
    RFalse
  | RTrue
  | Requires_input string string
  | Message bool string
  | Paused string string

text \<open>
  \<open>Requires_input field prompt\<close> is
  \<open>{"success": False, "requires_input": True, "field": field, "prompt": prompt}\<close>,
  \<open>Message b m\<close> is \<open>{"success": b, "message": m}\<close> and \<open>Paused field prompt\<close> is
  \<open>{"success": True, "status": "waiting_for_input", "human_input": form_result}\<close> around
  the \<open>Requires_input field prompt\<close> that \<open>fill_applicant_form\<close> returned.
\<close>

subsection \<open>The prompts\<close>

definition login_prompt :: "string \<Rightarrow> string \<Rightarrow> string \<Rightarrow> string" where
  "login_prompt url username password =
     ''\<newline>'' @
     ''            Navigate to the following web page:\<newline>'' @
     ''            URL: '' @
     url @
     ''\<newline>'' @
     ''\<newline>'' @
     ''            Log in using the following credentials:\<newline>'' @
     ''                Username: '' @
     username @
     ''\<newline>'' @
     ''                Password: '' @
     password @
     ''\<newline>'' @
     ''            \<newline>'' @
     ''            Wait for the page to load after login.\<newline>'' @
     ''            ''"

definition initial_prompt :: "string \<Rightarrow> string" where
  "initial_prompt email_body =
     ''\<newline>'' @
     ''            You are now logged into EZLynx. Your task is to fill out a new applicant form using information from this email:\<newline>'' @
     ''\<newline>'' @
     ''            '' @
     email_body @
     ''\<newline>'' @
     ''\<newline>'' @
     ''            Follow these steps:\<newline>'' @
     ''            1. Look for a \"New Application\" or \"Add Applicant\" button and click it\<newline>'' @
     ''            2. Fill out the form fields with information from the email\<newline>'' @
     ''            3. Look for business name, address, industry, and all other relevant information in the email\<newline>'' @
     ''            4. Leave non-required fields empty if the information is not available in the email\<newline>'' @
     ''            5. If a REQUIRED field does not have corresponding information in the email, STOP and ask for human input\<newline>'' @
     ''               by ending your response with exactly \"HUMAN_INPUT_REQUIRED: [field name] - [brief explanation]\"\<newline>'' @
     ''            6. Only submit the form when all required fields are filled\<newline>'' @
     ''            7. If you need human input, take a screenshot first so the human can see the form\<newline>'' @
     ''            8. Required fields are usually marked with an asterisk (*) but if you need human input for any required field that is not marked with an asterisk, STOP and ask for human input as described\<newline>'' @
     ''            \<newline>'' @
     ''            Think step by step and be methodical in filling out the form.\<newline>'' @
     ''            ''"

text \<open>
  The continuation prompt is three pieces of literal text around the two fields of the
  f-string, \<open>{email_body}\<close> and \<open>{human_inputs_text}\<close>.
\<close>

definition continuation_head :: string where
  "continuation_head =
     ''\<newline>'' @
     ''            Continue filling out the EZLynx form. You were previously working with this email content:\<newline>'' @
     ''            \<newline>'' @
     ''            ''"

definition continuation_middle :: string where
  "continuation_middle =
     ''\<newline>'' @
     ''            \<newline>'' @
     ''            You have received additional information from a human for fields that weren't in the email:\<newline>'' @
     ''            \<newline>'' @
     ''            ''"

definition continuation_tail :: string where
  "continuation_tail =
     ''\<newline>'' @
     ''            \<newline>'' @
     ''            Please continue filling out the form with this new information. Remember:\<newline>'' @
     ''            1. Leave non-required fields empty if the information is not available\<newline>'' @
     ''            2. If you encounter another REQUIRED field without corresponding information, STOP and ask for human input\<newline>'' @
     ''               by ending your response with exactly \"HUMAN_INPUT_REQUIRED: [field name] - [brief explanation]\"\<newline>'' @
     ''            3. Only submit the form when all required fields are filled\<newline>'' @
     ''            4. Take a screenshot first if you need more human input so the human can see the form\<newline>'' @
     ''            5. Required fields are usually marked with an asterisk (*) but if you need human input for any required field that is not marked with an asterisk, STOP and ask for human input as described\<newline>'' @
     ''            Continue where you left off with the form.\<newline>'' @
     ''            ''"

definition continuation_prompt :: "string \<Rightarrow> string \<Rightarrow> string" where
  "continuation_prompt email_body human_inputs_text =
     continuation_head @ email_body @ continuation_middle @ human_inputs_text @ continuation_tail"

subsection \<open>The methods\<close>

text \<open>\<open>initialize_scrapybara\<close>.\<close>

definition initialize_scrapybara :: "init_outcome \<Rightarrow> session \<Rightarrow> bool \<times> session" where
  "initialize_scrapybara met st =
     (let st1 = log ''Initializing Scrapybara instance...'' Info st;
          st2 = set_status Initializing st1
      in case met of
           Constructor_raised e \<Rightarrow>
             (False, log (''Error initializing Scrapybara: '' @ str_exn e) Err (set_status Error st2))
         | Initialize_raised inst e \<Rightarrow>
             (let st3 = st2\<lparr>computer := Some \<lparr>computer_instance = inst\<rparr>\<rparr>
              in (False, log (''Error initializing Scrapybara: '' @ str_exn e) Err (set_status Error st3)))
         | Id_write_raised i e \<Rightarrow>
             (let st3 = st2\<lparr>computer := Some \<lparr>computer_instance = Some i\<rparr>\<rparr>;
                  st4 = log (''Using Scrapybara Instance ID: '' @ i) Info st3
              in (False, log (''Error initializing Scrapybara: '' @ str_exn e) Err (set_status Error st4)))
         | Started i \<Rightarrow>
             (let st3 = st2\<lparr>computer := Some \<lparr>computer_instance = Some i\<rparr>\<rparr>;
                  st4 = log (''Using Scrapybara Instance ID: '' @ i) Info st3;
                  st5 = set_status Initialized st4
              in (True, log ''Scrapybara instance initialized successfully'' Info st5)))"

text \<open>\<open>login_with_agent\<close>.\<close>

definition login_with_agent :: "runner \<Rightarrow> session \<Rightarrow> bool \<times> session" where
  "login_with_agent run st =
     (if computer st = None then (False, log ''Scrapybara instance not initialized'' Err st)
      else
        let url = credentials st ''destination_url'';
            username = credentials st ''username'';
            password = credentials st ''password''
        in if py_not url \<or> py_not username \<or> py_not password
           then (False, log ''Missing login credentials'' Err st)
           else
             let prompt = login_prompt (format_opt url) (format_opt username) (format_opt password);
                 st1 = log ''Starting login process with OpenAI Agent...'' Info st;
                 st2 = set_status Logging_in st1;
                 st3 = log ''Agent initialized, starting login process...'' Info st2
             in case run login_agent (Prompt prompt) 100 of
                  Inl e \<Rightarrow>
                    (False, log (''Error during login with agent: '' @ str_exn e) Err (set_status Error st3))
                | Inr result \<Rightarrow>
                    (let st4 = log (''Agent completed login: '' @ final_output result) Info st3;
                         st5 = set_status Logged_in st4
                     in (True, log ''Login successful'' Info st5)))"

text \<open>
  The run of the form filling agent with the retry on pending safety checks, which
  \<open>fill_applicant_form\<close> and \<open>provide_human_input\<close> both hold, line for line:
  \<^verbatim>\<open>
  result = await Runner.run(agent, prompt, max_turns=500)
  new_inputs = result.to_input_list()
  if new_inputs[-1].get("pending_safety_checks"):
      self.log("Safety checks failed, retrying...", level="warn")
      vals = new_inputs[-1].get("pending_safety_checks")
      del vals["pending_safety_checks"]
      new_inputs[-1]["acknowledged_safety_checks"] = vals
      result = await Runner.run(agent, new_inputs, max_turns=500)
  \<close>
  \<open>vals\<close> is the object stored under \<open>"pending_safety_checks"\<close>, so the deletion shows
  under that key too.
\<close>

definition run_with_safety_retry ::
  "runner \<Rightarrow> agent_input \<Rightarrow> session \<Rightarrow> (exn + run_result) \<times> session" where
  "run_with_safety_retry run input st =
     (case run form_agent input 500 of
        Inl e \<Rightarrow> (Inl e, st)
      | Inr result \<Rightarrow>
          (let new_inputs = to_input_list result
           in if new_inputs = [] then (Inl (IndexError ''list index out of range''), st)
              else if truthy (dict_get (last new_inputs) ''pending_safety_checks'')
              then
                (let st1 = log ''Safety checks failed, retrying...'' Warn st;
                     vals = dict_get (last new_inputs) ''pending_safety_checks''
                 in case py_delitem vals ''pending_safety_checks'' of
                      Inl e \<Rightarrow> (Inl e, st1)
                    | Inr vals' \<Rightarrow>
                        (let item = dict_set ''acknowledged_safety_checks'' vals'
                                      (dict_set ''pending_safety_checks'' vals' (last new_inputs))
                         in (run form_agent (Items (butlast new_inputs @ [item])) 500, st1)))
              else (Inr result, st)))"

text \<open>
  The parse of a human input request, the same three lines in both methods:
  \<^verbatim>\<open>
  input_request = result.final_output.split("HUMAN_INPUT_REQUIRED:")[1].strip()
  field_name = input_request.split("-")[0].strip()
  explanation = "-".join(input_request.split("-")[1:]).strip()
  \<close>
\<close>

definition HUMAN_INPUT_REQUIRED :: string where
  "HUMAN_INPUT_REQUIRED = ''HUMAN_INPUT_REQUIRED:''"

definition parse_input_request :: "string \<Rightarrow> exn + string \<times> string" where
  "parse_input_request final =
     (case py_split HUMAN_INPUT_REQUIRED final of
        Inl e \<Rightarrow> Inl e
      | Inr parts \<Rightarrow>
          (case py_index parts 1 of
             Inl e \<Rightarrow> Inl e
           | Inr part \<Rightarrow>
               (let input_request = strip part
                in case py_split ''-'' input_request of
                     Inl e \<Rightarrow> Inl e
                   | Inr pieces \<Rightarrow>
                       (case py_index pieces 0 of
                          Inl e \<Rightarrow> Inl e
                        | Inr piece \<Rightarrow> Inr (strip piece, strip (join ''-'' (drop 1 pieces)))))))"

text \<open>Setting the human intervention flags, the same four assignments in both methods.\<close>

definition request_human_input :: "string \<Rightarrow> string \<Rightarrow> session \<Rightarrow> session" where
  "request_human_input field_name explanation st =
     set_status Waiting_for_input
       (st\<lparr>require_human_input := True,
           human_input_prompt := ''Please provide value for: '' @ field_name @ ''\<newline>'' @ explanation,
           human_input_field := field_name\<rparr>)"

text \<open>\<open>fill_applicant_form\<close>: what follows the agent's run, then the method.\<close>

definition fill_form_finish :: "run_result \<Rightarrow> session \<Rightarrow> outcome \<times> session" where
  "fill_form_finish result st =
     (if py_in HUMAN_INPUT_REQUIRED (final_output result)
      then
        (case parse_input_request (final_output result) of
           Inl e \<Rightarrow>
             (RFalse, log (''Error during form filling with agent: '' @ str_exn e) Err (set_status Error st))
         | Inr (field_name, explanation) \<Rightarrow>
             (let st1 = log ''Screenshot saved to screenshots/form_input_needed.png'' Info st;
                  st2 = log (''Human input required for field: '' @ field_name) Warn st1;
                  st3 = log (''Explanation: '' @ explanation) Warn st2;
                  st4 = request_human_input field_name explanation st3
              in (Requires_input field_name (human_input_prompt st4), st4)))
      else
        (let st1 = set_status Form_filled st;
             st2 = log ''Form filled successfully'' Info st1
         in (RTrue, log (''Agent output: '' @ final_output result) Info st2)))"

definition fill_applicant_form :: "runner \<Rightarrow> session \<Rightarrow> outcome \<times> session" where
  "fill_applicant_form run st =
     (if computer st = None then (RFalse, log ''Scrapybara instance not initialized'' Err st)
      else if status st \<noteq> Logged_in
      then (RFalse, log ''Must be logged in before filling form'' Err st)
      else
        let email_body = (case email_content st ''body'' of None \<Rightarrow> [] | Some b \<Rightarrow> b)
        in if email_body = []
           then (RFalse, log ''No email content available for form filling'' Err st)
           else
             let st1 = log ''Starting form filling process with OpenAI Agent...'' Info st;
                 st2 = set_status Filling_form st1;
                 st3 = log ''Agent initialized, starting form filling process...'' Info st2
             in case run_with_safety_retry run (Prompt (initial_prompt email_body)) st3 of
                  (Inl e, st4) \<Rightarrow>
                    (RFalse,
                     log (''Error during form filling with agent: '' @ str_exn e) Err (set_status Error st4))
                | (Inr result, st4) \<Rightarrow> fill_form_finish result st4)"

text \<open>
  \<open>provide_human_input\<close>: storing the input (up to the status update), the text of the
  inputs collected so far, what follows the agent's run, then the method.
\<close>

definition store_human_input :: "string \<Rightarrow> session \<Rightarrow> session" where
  "store_human_input input_value st =
     (let st1 = st\<lparr>human_inputs_collected :=
                    dict_set (human_input_field st) input_value (human_inputs_collected st)\<rparr>;
          st2 = log (''Received human input for '' @ human_input_field st1 @ '': '' @ input_value) Info st1;
          st3 = st2\<lparr>require_human_input := False\<rparr>
      in set_status Filling_form st3)"

definition human_inputs_text :: "(string \<times> string) list \<Rightarrow> string" where
  "human_inputs_text collected = join ''\<newline>'' (map (\<lambda>(field, v). field @ '': '' @ v) collected)"

definition provide_input_finish :: "run_result \<Rightarrow> session \<Rightarrow> outcome \<times> session" where
  "provide_input_finish result st =
     (if py_in HUMAN_INPUT_REQUIRED (final_output result)
      then
        (case parse_input_request (final_output result) of
           Inl e \<Rightarrow>
             (Message False (str_exn e),
              log (''Error during form filling with human input: '' @ str_exn e) Err (set_status Error st))
         | Inr (field_name, explanation) \<Rightarrow>
             (let st1 = log ''Screenshot saved to screenshots/form_input_needed_again.png'' Info st;
                  st2 = log (''Human input required for field: '' @ field_name) Warn st1;
                  st3 = log (''Explanation: '' @ explanation) Warn st2;
                  st4 = request_human_input field_name explanation st3
              in (Requires_input field_name (human_input_prompt st4), st4)))
      else
        (let st1 = set_status Form_filled st;
             st2 = log ''Form filled successfully with human input'' Info st1
         in (Message True ''Form filled successfully'',
             log (''Agent output: '' @ final_output result) Info st2)))"

definition provide_human_input :: "runner \<Rightarrow> string \<Rightarrow> session \<Rightarrow> outcome \<times> session" where
  "provide_human_input run input_value st =
     (if computer st = None then (RFalse, log ''Scrapybara instance not initialized'' Err st)
      else if status st \<noteq> Waiting_for_input
      then (RFalse, log ''Not waiting for human input'' Err st)
      else
        let st1 = store_human_input input_value st;
            email_body = (case email_content st1 ''body'' of None \<Rightarrow> [] | Some b \<Rightarrow> b);
            prompt = continuation_prompt email_body (human_inputs_text (human_inputs_collected st1));
            st2 = log ''Agent continuing form filling with human input...'' Info st1
        in case run_with_safety_retry run (Prompt prompt) st2 of
             (Inl e, st3) \<Rightarrow>
               (Message False (str_exn e),
                log (''Error during form filling with human input: '' @ str_exn e) Err (set_status Error st3))
           | (Inr result, st3) \<Rightarrow> provide_input_finish result st3)"

text \<open>\<open>run_automation\<close>: its \<open>except\<close> branch, then the method.\<close>

definition automation_failed :: "exn \<Rightarrow> session \<Rightarrow> outcome \<times> session" where
  "automation_failed e st =
     (Message False (str_exn e),
      log (''Error in automation process: '' @ str_exn e) Err (set_status Error st))"

definition run_automation :: "init_outcome \<Rightarrow> runner \<Rightarrow> session \<Rightarrow> outcome \<times> session" where
  "run_automation met run st =
     (case initialize_scrapybara met st of
        (init_success, st1) \<Rightarrow>
          if \<not> init_success then automation_failed (Exception ''Failed to initialize Scrapybara'') st1
          else
            (case login_with_agent run st1 of
               (login_success, st2) \<Rightarrow>
                 if \<not> login_success
                 then automation_failed (Exception ''Failed to login to the website'') st2
                 else
                   (case fill_applicant_form run st2 of
                      (Requires_input field prompt, st3) \<Rightarrow>
                        (Paused field prompt, log ''Automation paused waiting for human input'' Info st3)
                    | (RTrue, st3) \<Rightarrow>
                        (let st4 = set_status Completed st3
                         in (Message True ''Automation completed successfully'',
                             log ''Automation process completed successfully'' Info st4))
                    | (_, st3) \<Rightarrow> (Message False ''Form filling failed'', st3))))"

text \<open>
  \<open>cleanup\<close>. \<open>computer.stop()\<close> calls \<open>self.instance.stop()\<close>, which raises
  \<open>AttributeError\<close> on an instance that is \<open>None\<close> and otherwise does what the remote
  side does (\<open>stopped\<close>: the exception it raised, if any).
\<close>

definition computer_stop :: "exn option \<Rightarrow> computer_obj \<Rightarrow> exn option" where
  "computer_stop stopped c =
     (case computer_instance c of
        None \<Rightarrow> Some (AttributeError ([CHR 0x27] @ ''NoneType'' @ [CHR 0x27] @ '' object has no attribute '' @ [CHR 0x27] @ ''stop'' @ [CHR 0x27]))
      | Some i \<Rightarrow> stopped)"

definition cleanup :: "exn option \<Rightarrow> session \<Rightarrow> session" where
  "cleanup stopped st =
     (case computer st of
        None \<Rightarrow> st
      | Some c \<Rightarrow>
          (let st1 = log ''Stopping Scrapybara instance...'' Info st
           in case computer_stop stopped c of
                Some e \<Rightarrow> log (''Error stopping Scrapybara: '' @ str_exn e) Err st1
              | None \<Rightarrow> log ''Scrapybara instance stopped'' Info st1))"

text \<open>\<open>get_status\<close>: the status, the last ten log entries and the pending request, if any.\<close>

definition get_status :: "session \<Rightarrow> status \<times> log_entry list \<times> (string \<times> string) option" where
  "get_status st =
     (status st,
      (if length (log_entries st) > 10 then drop (length (log_entries st) - 10) (log_entries st)
       else log_entries st),
      (if require_human_input st then Some (human_input_prompt st, human_input_field st) else None))"

subsection \<open>Sequences of operations\<close>

datatype operation =
    Initialize init_outcome
  | Login runner
  | Fill_form runner
  | Provide_human_input runner string
  | Run_full init_outcome runner
  | Cleanup "exn option"

fun step :: "operation \<Rightarrow> session \<Rightarrow> session" where
  "step (Initialize met) st = snd (initialize_scrapybara met st)"
| "step (Login run) st = snd (login_with_agent run st)"
| "step (Fill_form run) st = snd (fill_applicant_form run st)"
| "step (Provide_human_input run v) st = snd (provide_human_input run v st)"
| "step (Run_full met run) st = snd (run_automation met run st)"
| "step (Cleanup stopped) st = cleanup stopped st"

definition run_ops :: "operation list \<Rightarrow> session \<Rightarrow> session" where
  "run_ops ops st = fold step ops st"

subsection \<open>The state graph\<close>

text \<open>
  The edges of the state graph as the specification draws it:
  initialized, initializing, initialized, logging in, logged in, filling the form,
  waiting for input and back, form filled, completed; and from any state to error.
\<close>

definition spec_edge :: "status \<Rightarrow> status \<Rightarrow> bool" where
  "spec_edge a b =
     (b = Error \<or>
      (a, b) \<in> set [(Initialized, Initializing), (Initializing, Initialized),
                    (Initialized, Logging_in), (Logging_in, Logged_in),
                    (Logged_in, Filling_form), (Filling_form, Waiting_for_input),
                    (Waiting_for_input, Filling_form), (Filling_form, Form_filled),
                    (Form_filled, Completed)])"

text \<open>
  The edges the methods take: those of the graph, and the first assignment of
  \<open>initialize_scrapybara\<close> and of \<open>login_with_agent\<close>, which neither method guards by the
  status.
\<close>

definition code_edge :: "status \<Rightarrow> status \<Rightarrow> bool" where
  "code_edge a b = (spec_edge a b \<or> b = Initializing \<or> b = Logging_in)"

text \<open>
  The history variable is in step with \<open>status\<close>, and every two neighbours in it are an
  edge the methods take.
\<close>

definition history_ok :: "session \<Rightarrow> bool" where
  "history_ok st =
     (status_history st \<noteq> [] \<and> last (status_history st) = status st \<and>
      successively code_edge (status_history st))"

text \<open>
  The operations without a guard on the status, and the sequences of operations that
  never run one of them on a session whose \<open>require_human_input\<close> flag is set.
\<close>

fun restarts :: "operation \<Rightarrow> bool" where
  "restarts (Initialize met) = True"
| "restarts (Login run) = True"
| "restarts (Run_full met run) = True"
| "restarts (Fill_form run) = False"
| "restarts (Provide_human_input run v) = False"
| "restarts (Cleanup stopped) = False"

fun no_restart_while_pending :: "operation list \<Rightarrow> session \<Rightarrow> bool" where
  "no_restart_while_pending [] st = True"
| "no_restart_while_pending (op # ops) st =
     ((restarts op \<longrightarrow> \<not> require_human_input st) \<and> no_restart_while_pending ops (step op st))"

subsection \<open>The parse as the specification words it\<close>

text \<open>
  "Split the remainder on the first \<open>-\<close> character: everything before is the field name
  (trimmed), everything after is the explanation (trimmed)", where the remainder is the
  text after the marker. Without a \<open>-\<close> the whole remainder is the field name.
  \<open>request_text\<close> is what the code takes for the remainder: the text up to the next
  marker, if there is one.
\<close>

definition split_first_hyphen :: "string \<Rightarrow> string \<times> string" where
  "split_first_hyphen rest =
     (case partition_str ''-'' rest of
        None \<Rightarrow> (strip rest, [])
      | Some (before, after) \<Rightarrow> (strip before, strip after))"

definition spec_parse :: "string \<Rightarrow> (string \<times> string) option" where
  "spec_parse text =
     (case partition_str HUMAN_INPUT_REQUIRED text of
        None \<Rightarrow> None
      | Some (before, rest) \<Rightarrow> Some (split_first_hyphen rest))"

definition request_text :: "string \<Rightarrow> string" where
  "request_text rest =
     (case partition_str HUMAN_INPUT_REQUIRED rest of None \<Rightarrow> rest | Some (request, later) \<Rightarrow> request)"

subsection \<open>Scenarios\<close>

text \<open>
  The records and the agent of the end-to-end scenario: credentials and an email that are
  complete, an agent that answers every run with the given text and a conversation
  without pending safety checks, and the sessions after \<open>initialize_scrapybara\<close>, after
  \<open>login_with_agent\<close> and after a \<open>fill_applicant_form\<close> that asked for the industry.
\<close>

definition example_credentials :: "string \<rightharpoonup> string" where
  "example_credentials =
     [''destination_url'' \<mapsto> ''https://ezlynx.example'', ''username'' \<mapsto> ''agent1'',
      ''password'' \<mapsto> ''secret'']"

definition example_email :: "string \<rightharpoonup> string" where
  "example_email = [''subject'' \<mapsto> ''New Lead'', ''body'' \<mapsto> ''Acme Corp, 123 Main St'']"

definition agent_says :: "string \<Rightarrow> runner" where
  "agent_says text = (\<lambda>a input max_turns.
     Inr \<lparr>final_output = text, to_input_list = [[(''role'', PStr ''assistant'')]]\<rparr>)"

definition ready_session :: session where
  "ready_session =
     snd (initialize_scrapybara (Started ''i-1'') (new_session (Loaded example_credentials example_email)))"

definition logged_in_session :: session where
  "logged_in_session = snd (login_with_agent (agent_says ''Logged in.'') ready_session)"

definition waiting_session :: session where
  "waiting_session =
     snd (fill_applicant_form
            (agent_says ''Stopped. HUMAN_INPUT_REQUIRED: Industry - no industry mentioned'')
            logged_in_session)"

definition scenario_ops :: "operation list" where
  "scenario_ops =
     [Initialize (Started ''i-1''), Login (agent_says ''Logged in.''),
      Fill_form (agent_says ''Stopped. HUMAN_INPUT_REQUIRED: Industry - no industry mentioned'')]"

text \<open>
  An initialised session whose credentials miss the password, and a logged in session
  whose email content is empty.
\<close>

definition no_password_session :: session where
  "no_password_session =
     snd (initialize_scrapybara (Started ''i-1'')
            (new_session (Loaded (example_credentials(''password'' := None)) example_email)))"

definition no_email_session :: session where
  "no_email_session =
     snd (login_with_agent (agent_says ''Logged in.'')
            (snd (initialize_scrapybara (Started ''i-1'')
                    (new_session (Loaded example_credentials Map.empty)))))"

text \<open>
  An agent whose first answer ends in a computer call with a pending safety check (the
  list of checks that the model's API returns), and that finishes the form when it is
  run again on the items of the conversation.
\<close>

definition pending_checks :: pyval where
  "pending_checks =
     PList [PDict [(''id'', PStr ''cu_sc_1''), (''code'', PStr ''malicious_instructions''),
                   (''message'', PStr ''Possible malicious instructions detected.'')]]"

definition agent_with_pending_checks :: runner where
  "agent_with_pending_checks = (\<lambda>a input max_turns.
     case input of
       Prompt p \<Rightarrow>
         Inr \<lparr>final_output = ''Clicked the button.'',
              to_input_list =
                [[(''role'', PStr ''user''), (''content'', PStr p)],
                 [(''type'', PStr ''computer_call''), (''call_id'', PStr ''call_1''),
                  (''pending_safety_checks'', pending_checks)]]\<rparr>
     | Items items \<Rightarrow>
         Inr \<lparr>final_output = ''Form submitted successfully.'', to_input_list = items\<rparr>)"

text \<open>An initialisation that fails, and a second one that goes through.\<close>

definition restart_ops :: "operation list" where
  "restart_ops =
     [Initialize (Initialize_raised None (Exception ''no capacity'')), Initialize (Started ''i-1'')]"

section \<open>Properties\<close>

subsection \<open>Logging and status updates, field by field\<close>

lemma log_fields [simp]:
  "credentials (log m l st) = credentials st"
  "email_content (log m l st) = email_content st"
  "instance_id (log m l st) = instance_id st"
  "status (log m l st) = status st"
  "computer (log m l st) = computer st"
  "require_human_input (log m l st) = require_human_input st"
  "human_input_prompt (log m l st) = human_input_prompt st"
  "human_input_field (log m l st) = human_input_field st"
  "human_inputs_collected (log m l st) = human_inputs_collected st"
  "status_history (log m l st) = status_history st"
  "log_entries (log m l st) = log_entries st @ [\<lparr>level = l, message = m\<rparr>]"
  by (simp_all add: log_def)

lemma set_status_fields [simp]:
  "credentials (set_status s st) = credentials st"
  "email_content (set_status s st) = email_content st"
  "instance_id (set_status s st) = instance_id st"
  "status (set_status s st) = s"
  "computer (set_status s st) = computer st"
  "require_human_input (set_status s st) = require_human_input st"
  "human_input_prompt (set_status s st) = human_input_prompt st"
  "human_input_field (set_status s st) = human_input_field st"
  "human_inputs_collected (set_status s st) = human_inputs_collected st"
  "status_history (set_status s st) = status_history st @ [s]"
  "log_entries (set_status s st) = log_entries st"
  by (simp_all add: set_status_def)

subsection \<open>The scenario sessions\<close>

lemma example_lookups:
  "example_credentials ''destination_url'' = Some ''https://ezlynx.example''"
  "example_credentials ''username'' = Some ''agent1''"
  "example_credentials ''password'' = Some ''secret''"
  "example_email ''body'' = Some ''Acme Corp, 123 Main St''"
  by (simp_all add: example_credentials_def example_email_def)

lemma ready_session_fields:
  "status ready_session = Initialized" "computer ready_session = Some \<lparr>computer_instance = Some ''i-1''\<rparr>"
  "credentials ready_session = example_credentials" "email_content ready_session = example_email"
  "require_human_input ready_session = False"
  "human_inputs_collected ready_session = []"
  by (simp_all add: ready_session_def initialize_scrapybara_def blank_session_def)

lemma logged_in_session_fields:
  "status logged_in_session = Logged_in" "computer logged_in_session = Some \<lparr>computer_instance = Some ''i-1''\<rparr>"
  "credentials logged_in_session = example_credentials" "email_content logged_in_session = example_email"
  "require_human_input logged_in_session = False"
  "human_inputs_collected logged_in_session = []"
  by (simp_all add: logged_in_session_def login_with_agent_def ready_session_fields example_lookups
      py_not_def agent_says_def)

lemma agent_says_retry:
  "run_with_safety_retry (agent_says text) input st =
     (Inr \<lparr>final_output = text, to_input_list = [[(''role'', PStr ''assistant'')]]\<rparr>, st)"
  by (simp add: run_with_safety_retry_def agent_says_def dict_get_def)

lemma no_password_session_fields:
  "status no_password_session = Initialized"
  "computer no_password_session = Some \<lparr>computer_instance = Some ''i-1''\<rparr>"
  "credentials no_password_session = example_credentials(''password'' := None)"
  by (simp_all add: no_password_session_def initialize_scrapybara_def blank_session_def)

lemma no_email_session_fields:
  "status no_email_session = Logged_in"
  "computer no_email_session = Some \<lparr>computer_instance = Some ''i-1''\<rparr>"
  "email_content no_email_session = Map.empty"
  by (simp_all add: no_email_session_def initialize_scrapybara_def login_with_agent_def
      blank_session_def example_lookups py_not_def agent_says_def)

subsection \<open>Splitting and stripping\<close>

lemma py_in_partition: "py_in sub s \<longleftrightarrow> partition_str sub s \<noteq> None"
  by (induction s) auto

lemma py_in_middle: "py_in sub (a @ sub @ b)"
proof (induction a)
  case Nil
  have "take (length sub) (sub @ b) = sub" by simp
  then show ?case by (cases "sub @ b") auto
next
  case (Cons c a)
  then show ?case by simp
qed

lemma split_str_Cons: "\<exists>x xs. split_str sep s = x # xs"
  by (subst split_str.simps) (auto split: option.splits)

lemma split_str_None: "partition_str sep s = None \<Longrightarrow> split_str sep s = [s]"
  by (subst split_str.simps) simp

lemma split_str_Some:
  "sep \<noteq> [] \<Longrightarrow> partition_str sep s = Some (a, b) \<Longrightarrow> split_str sep s = a # split_str sep b"
  by (subst split_str.simps) simp

lemma split_str_two:
  "sep \<noteq> [] \<Longrightarrow> partition_str sep s = Some (a, b) \<Longrightarrow> \<exists>x xs. split_str sep s = a # x # xs"
  using split_str_Cons [of sep b] by (subst split_str.simps) auto

lemma join_Cons: "xs \<noteq> [] \<Longrightarrow> join sep (x # xs) = x @ sep @ join sep xs"
  by (cases xs) simp_all

lemma join_append:
  "xs \<noteq> [] \<Longrightarrow> ys \<noteq> [] \<Longrightarrow> join sep (xs @ ys) = join sep xs @ sep @ join sep ys"
proof (induction sep xs rule: join.induct)
  case (1 sep)
  then show ?case by simp
next
  case (2 sep x)
  then show ?case by (cases ys) simp_all
next
  case (3 sep x y ys')
  then show ?case by simp
qed

lemma join_split_str: "sep \<noteq> [] \<Longrightarrow> join sep (split_str sep s) = s"
proof (induction sep s rule: split_str.induct)
  case (1 sep s)
  show ?case
  proof (cases "partition_str sep s")
    case None
    then show ?thesis by (simp add: split_str_None)
  next
    case (Some ab)
    obtain a b where ab: "ab = (a, b)" by (cases ab)
    have ne: "split_str sep b \<noteq> []" using split_str_Cons [of sep b] by auto
    have "join sep (split_str sep b) = b" using 1 Some ab by simp
    moreover have "s = a @ sep @ b" using Some ab partition_str_Some by simp
    ultimately show ?thesis using Some ab 1(2) ne by (simp add: split_str_Some join_Cons)
  qed
qed

lemma partition_char_absent: "c \<notin> set s \<Longrightarrow> partition_str [c] s = None"
  by (induction s) auto

lemma partition_char_first: "c \<notin> set a \<Longrightarrow> partition_str [c] (a @ c # b) = Some (a, b)"
  by (induction a) auto

lemma partition_char_None: "partition_str [c] s = None \<Longrightarrow> c \<notin> set s"
  by (induction s) (auto split: if_splits)

lemma partition_char_Some: "partition_str [c] s = Some (a, b) \<Longrightarrow> c \<notin> set a \<and> s = a @ c # b"
proof (induction s arbitrary: a)
  case Nil
  then show ?case by simp
next
  case (Cons x xs)
  then show ?case by (auto split: if_splits)
qed

lemma lstrip_nonspace: "\<not> is_space c \<Longrightarrow> lstrip (a @ c # b) = lstrip a @ c # b"
  by (simp add: lstrip_def dropWhile_append3)

lemma rstrip_nonspace: "\<not> is_space c \<Longrightarrow> rstrip (a @ c # b) = a @ c # rstrip b"
  by (simp add: rstrip_def dropWhile_append3)

lemma lstrip_idem: "lstrip (lstrip s) = lstrip s"
  by (simp add: lstrip_def)

lemma rstrip_idem: "rstrip (rstrip s) = rstrip s"
  by (simp add: rstrip_def)

lemma lstrip_rstrip: "lstrip (rstrip s) = rstrip (lstrip s)"
proof (cases "\<forall>c\<in>set s. is_space c")
  case True
  then have "lstrip s = []" "rstrip s = []" by (simp_all add: lstrip_def rstrip_def)
  moreover have "lstrip [] = []" "rstrip [] = []" by (simp_all add: lstrip_def rstrip_def)
  ultimately show ?thesis by simp
next
  case False
  then have "\<exists>c\<in>set s. \<not> is_space c" by simp
  then obtain pre c rest where s: "s = pre @ c # rest" and c: "\<not> is_space c"
    and pre: "\<forall>x\<in>set pre. \<not> \<not> is_space x"
    using split_list_first_prop [of s "\<lambda>c. \<not> is_space c"] by blast
  from pre have pre': "lstrip pre = []" by (simp add: lstrip_def)
  have "lstrip (rstrip s) = c # rstrip rest"
    using c pre' by (simp add: s rstrip_nonspace lstrip_nonspace)
  moreover have "rstrip (lstrip s) = c # rstrip rest"
    using c pre' rstrip_nonspace [of c "[]" rest] by (simp add: s lstrip_nonspace)
  ultimately show ?thesis by simp
qed

lemma strip_lstrip: "strip (lstrip s) = strip s"
  by (simp add: strip_def lstrip_idem)

lemma strip_rstrip: "strip (rstrip s) = strip s"
  by (simp add: strip_def lstrip_rstrip rstrip_idem)

lemma strip_idem: "strip (strip s) = strip s"
  by (simp add: strip_def lstrip_rstrip rstrip_idem lstrip_idem)

lemma strip_Nil: "strip [] = []"
  by (simp add: strip_def lstrip_def rstrip_def)

lemma set_strip: "set (strip s) \<subseteq> set s"
proof -
  have "set (rstrip t) \<subseteq> set t" for t
    using set_dropWhileD [of _ is_space "rev t"] by (auto simp: rstrip_def)
  moreover have "set (lstrip t) \<subseteq> set t" for t
    using set_dropWhileD [of _ is_space t] by (auto simp: lstrip_def)
  ultimately show ?thesis unfolding strip_def by blast
qed

lemma hyphen_not_space: "\<not> is_space CHR ''-''"
  by (simp add: is_space_def)

subsection \<open>The parse of a human input request\<close>

text \<open>An output that holds the marker always parses: the parse raises nothing.\<close>

lemma parse_input_request_defined:
  assumes "py_in HUMAN_INPUT_REQUIRED final"
  shows "\<exists>field_name explanation. parse_input_request final = Inr (field_name, explanation)"
proof -
  have ne: "HUMAN_INPUT_REQUIRED \<noteq> []" by (simp add: HUMAN_INPUT_REQUIRED_def)
  from assms obtain a b where "partition_str HUMAN_INPUT_REQUIRED final = Some (a, b)"
    by (auto simp: py_in_partition)
  with ne obtain x xs where parts: "split_str HUMAN_INPUT_REQUIRED final = a # x # xs"
    using split_str_two by blast
  obtain y ys where pieces: "split_str ''-'' (strip x) = y # ys"
    using split_str_Cons by blast
  show ?thesis
    using ne parts pieces by (simp add: parse_input_request_def py_split_def py_index_def)
qed

text \<open>
  The two results of the parse are the two sides of the first \<open>-\<close> of the request,
  stripped.
\<close>

lemma field_and_explanation:
  "(strip (hd (split_str ''-'' (strip x))), strip (join ''-'' (drop 1 (split_str ''-'' (strip x))))) =
     split_first_hyphen x"
proof (cases "partition_str ''-'' x")
  case None
  then have "CHR ''-'' \<notin> set (strip x)" using partition_char_None set_strip by blast
  then have "split_str ''-'' (strip x) = [strip x]"
    by (simp add: partition_char_absent split_str_None)
  then show ?thesis using None by (simp add: split_first_hyphen_def strip_idem strip_Nil)
next
  case (Some ab)
  obtain a b where ab: "ab = (a, b)" by (cases ab)
  with Some have a: "CHR ''-'' \<notin> set a" and x: "x = a @ CHR ''-'' # b"
    using partition_char_Some by blast+
  have sx: "strip x = lstrip a @ CHR ''-'' # rstrip b"
    by (simp add: x strip_def lstrip_nonspace rstrip_nonspace hyphen_not_space)
  have "CHR ''-'' \<notin> set (lstrip a)"
    using a set_dropWhileD [of _ is_space a] by (auto simp: lstrip_def)
  then have "partition_str [CHR ''-''] (lstrip a @ CHR ''-'' # rstrip b) = Some (lstrip a, rstrip b)"
    by (rule partition_char_first)
  then have "partition_str ''-'' (strip x) = Some (lstrip a, rstrip b)"
    by (simp only: sx)
  then have "split_str ''-'' (strip x) = lstrip a # split_str ''-'' (rstrip b)"
    by (simp add: split_str_Some)
  then show ?thesis
    using Some ab by (simp add: split_first_hyphen_def join_split_str strip_lstrip strip_rstrip)
qed

lemma marker_example:
  "py_in HUMAN_INPUT_REQUIRED ''Stopped. HUMAN_INPUT_REQUIRED: Industry - no industry mentioned''"
  "parse_input_request ''Stopped. HUMAN_INPUT_REQUIRED: Industry - no industry mentioned'' =
     Inr (''Industry'', ''no industry mentioned'')"
  by (code_simp)+

lemma business_address_example:
  "py_in HUMAN_INPUT_REQUIRED
     ''...HUMAN_INPUT_REQUIRED: Business Address - Not present in the email text''"
  "partition_str HUMAN_INPUT_REQUIRED
     ''...HUMAN_INPUT_REQUIRED: Business Address - Not present in the email text'' =
     Some (''...'', '' Business Address - Not present in the email text'')"
  "\<not> py_in HUMAN_INPUT_REQUIRED '' Business Address - Not present in the email text''"
  "split_first_hyphen (request_text '' Business Address - Not present in the email text'') =
     (''Business Address'', ''Not present in the email text'')"
  by code_simp+

text \<open>
  C4, as amended. For every output that holds the marker, the parse returns the field
  name and the explanation of the request text, split at its first \<open>-\<close> and stripped on
  both sides, where the request text is the text after the first marker up to the next
  marker (up to the end when there is none). When the marker occurs once, that is the
  split of all the text after the marker, as the specification words it. The example of
  the specification parses to "Business Address" and "Not present in the email text".
\<close>

theorem parse_splits_request_at_first_hyphen:
  "(py_in HUMAN_INPUT_REQUIRED text \<longrightarrow>
      (\<exists>before rest.
         partition_str HUMAN_INPUT_REQUIRED text = Some (before, rest) \<and>
         parse_input_request text = Inr (split_first_hyphen (request_text rest)) \<and>
         (\<not> py_in HUMAN_INPUT_REQUIRED rest \<longrightarrow> Some (split_first_hyphen (request_text rest)) = spec_parse text)))
   \<and>
   parse_input_request
     ''...HUMAN_INPUT_REQUIRED: Business Address - Not present in the email text'' =
     Inr (''Business Address'', ''Not present in the email text'')"
proof (intro conjI impI)
  have ne: "HUMAN_INPUT_REQUIRED \<noteq> []" by (simp add: HUMAN_INPUT_REQUIRED_def)
  assume "py_in HUMAN_INPUT_REQUIRED text"
  then obtain before rest where p: "partition_str HUMAN_INPUT_REQUIRED text = Some (before, rest)"
    by (auto simp: py_in_partition)
  have parts: "split_str HUMAN_INPUT_REQUIRED text = before # split_str HUMAN_INPUT_REQUIRED rest"
    using ne p by (rule split_str_Some)
  have second: "\<exists>others. split_str HUMAN_INPUT_REQUIRED rest = request_text rest # others"
  proof (cases "partition_str HUMAN_INPUT_REQUIRED rest")
    case None
    then show ?thesis by (simp add: split_str_None request_text_def)
  next
    case (Some rm)
    then show ?thesis using ne by (cases rm) (simp add: split_str_Some request_text_def)
  qed
  then obtain others where others: "split_str HUMAN_INPUT_REQUIRED rest = request_text rest # others" ..
  obtain y ys where pieces: "split_str ''-'' (strip (request_text rest)) = y # ys"
    using split_str_Cons by blast
  have "parse_input_request text =
      Inr (strip (hd (split_str ''-'' (strip (request_text rest)))),
           strip (join ''-'' (drop 1 (split_str ''-'' (strip (request_text rest))))))"
    using ne parts others pieces
    by (simp add: parse_input_request_def py_split_def py_index_def)
  then have parse: "parse_input_request text = Inr (split_first_hyphen (request_text rest))"
    by (simp only: field_and_explanation)
  have once: "\<not> py_in HUMAN_INPUT_REQUIRED rest \<longrightarrow>
      Some (split_first_hyphen (request_text rest)) = spec_parse text"
    using p by (cases "partition_str HUMAN_INPUT_REQUIRED rest")
      (simp_all add: py_in_partition spec_parse_def request_text_def)
  show "\<exists>before rest.
         partition_str HUMAN_INPUT_REQUIRED text = Some (before, rest) \<and>
         parse_input_request text = Inr (split_first_hyphen (request_text rest)) \<and>
         (\<not> py_in HUMAN_INPUT_REQUIRED rest \<longrightarrow> Some (split_first_hyphen (request_text rest)) = spec_parse text)"
    using p parse once by blast
next
  show "parse_input_request
     ''...HUMAN_INPUT_REQUIRED: Business Address - Not present in the email text'' =
     Inr (''Business Address'', ''Not present in the email text'')"
    by code_simp
qed

text \<open>The theorem at the example of the specification, whose marker occurs once.\<close>

theorem parse_splits_request_at_first_hyphen_witness:
  "py_in HUMAN_INPUT_REQUIRED
     ''...HUMAN_INPUT_REQUIRED: Business Address - Not present in the email text'' \<and>
   \<not> py_in HUMAN_INPUT_REQUIRED '' Business Address - Not present in the email text'' \<and>
   spec_parse ''...HUMAN_INPUT_REQUIRED: Business Address - Not present in the email text'' =
     Some (''Business Address'', ''Not present in the email text'')"
  using parse_splits_request_at_first_hyphen
    [of "''...HUMAN_INPUT_REQUIRED: Business Address - Not present in the email text''"]
  by (auto simp add: business_address_example simp del: py_in.simps partition_str.simps)

text \<open>
  C4 as stated fails on an output with two markers: the explanation stops at the second
  marker, while everything after the first \<open>-\<close> goes on to the end of the output.
\<close>

theorem second_marker_cuts_the_request:
  "py_in HUMAN_INPUT_REQUIRED
     ''HUMAN_INPUT_REQUIRED: Industry - none given. HUMAN_INPUT_REQUIRED: Address - none given'' \<and>
   parse_input_request
     ''HUMAN_INPUT_REQUIRED: Industry - none given. HUMAN_INPUT_REQUIRED: Address - none given'' =
     Inr (''Industry'', ''none given.'') \<and>
   spec_parse
     ''HUMAN_INPUT_REQUIRED: Industry - none given. HUMAN_INPUT_REQUIRED: Address - none given'' =
     Some (''Industry'', ''none given. HUMAN_INPUT_REQUIRED: Address - none given'')"
  by code_simp

subsection \<open>The run with the safety check retry\<close>

text \<open>
  The run leaves the session as it is or adds the warning to the log, and its outcome
  does not depend on the session.
\<close>

lemma run_with_safety_retry_session:
  "snd (run_with_safety_retry run input st) = st \<or>
   snd (run_with_safety_retry run input st) = log ''Safety checks failed, retrying...'' Warn st"
  by (simp add: run_with_safety_retry_def Let_def split: sum.splits)

lemma run_with_safety_retry_outcome:
  "fst (run_with_safety_retry run input st) = fst (run_with_safety_retry run input st')"
  by (simp add: run_with_safety_retry_def Let_def split: sum.splits)

lemma run_with_safety_retry_cases:
  assumes "fst (run_with_safety_retry run input st0) = r"
  obtains "run_with_safety_retry run input st = (r, st)"
  | "run_with_safety_retry run input st = (r, log ''Safety checks failed, retrying...'' Warn st)"
proof -
  have "fst (run_with_safety_retry run input st) = r"
    using assms run_with_safety_retry_outcome by metis
  then show thesis
    using run_with_safety_retry_session [of run input st] that
    by (metis prod.collapse)
qed

lemma waiting_session_fields:
  "status waiting_session = Waiting_for_input" "computer waiting_session = Some \<lparr>computer_instance = Some ''i-1''\<rparr>"
  "credentials waiting_session = example_credentials" "email_content waiting_session = example_email"
  "require_human_input waiting_session = True"
  "human_input_field waiting_session = ''Industry''"
  "human_inputs_collected waiting_session = []"
  by (simp_all add: waiting_session_def fill_applicant_form_def logged_in_session_fields example_lookups
      agent_says_retry fill_form_finish_def marker_example request_human_input_def
      del: py_in.simps)

text \<open>
  C3. In \<open>fill_applicant_form\<close> (on a session with a computer, logged in, with an email
  body) and in \<open>provide_human_input\<close> (on a session with a computer that waits for
  input), let the run of the agent, with its retry, end with \<open>result\<close> (the outcome of
  the run is the same on every session, so the hypothesis states it on \<open>st\<close>). If its
  final output holds the marker, the method returns the needs-input dictionary with the
  parsed field and the prompt "Please provide value for: field, newline, explanation",
  sets the flag, the field and the prompt, and the status is \<open>waiting_for_input\<close>. If it
  does not, the method returns success, the status is \<open>form_filled\<close> and the method sets
  no request.
\<close>

theorem marker_decides_the_outcome:
  "(computer st \<noteq> None \<and> status st = Logged_in \<and> email_content st ''body'' = Some body \<and> body \<noteq> [] \<and>
    fst (run_with_safety_retry run (Prompt (initial_prompt body)) st) = Inr result
    \<longrightarrow>
    (if py_in HUMAN_INPUT_REQUIRED (final_output result)
     then \<exists>field_name explanation st'.
            parse_input_request (final_output result) = Inr (field_name, explanation) \<and>
            fill_applicant_form run st =
              (Requires_input field_name
                 (''Please provide value for: '' @ field_name @ ''\<newline>'' @ explanation), st') \<and>
            status st' = Waiting_for_input \<and> require_human_input st' \<and>
            human_input_field st' = field_name \<and>
            human_input_prompt st' =
              ''Please provide value for: '' @ field_name @ ''\<newline>'' @ explanation
     else fst (fill_applicant_form run st) = RTrue \<and>
          status (snd (fill_applicant_form run st)) = Form_filled \<and>
          require_human_input (snd (fill_applicant_form run st)) = require_human_input st))
   \<and>
   (computer sw \<noteq> None \<and> status sw = Waiting_for_input \<and>
    fst (run_with_safety_retry run2
           (Prompt (continuation_prompt
              (case email_content sw ''body'' of None \<Rightarrow> [] | Some b \<Rightarrow> b)
              (human_inputs_text (dict_set (human_input_field sw) v (human_inputs_collected sw)))))
           sw) = Inr result2
    \<longrightarrow>
    (if py_in HUMAN_INPUT_REQUIRED (final_output result2)
     then \<exists>field_name explanation st'.
            parse_input_request (final_output result2) = Inr (field_name, explanation) \<and>
            provide_human_input run2 v sw =
              (Requires_input field_name
                 (''Please provide value for: '' @ field_name @ ''\<newline>'' @ explanation), st') \<and>
            status st' = Waiting_for_input \<and> require_human_input st' \<and>
            human_input_field st' = field_name \<and>
            human_input_prompt st' =
              ''Please provide value for: '' @ field_name @ ''\<newline>'' @ explanation
     else fst (provide_human_input run2 v sw) = Message True ''Form filled successfully'' \<and>
          status (snd (provide_human_input run2 v sw)) = Form_filled \<and>
          \<not> require_human_input (snd (provide_human_input run2 v sw))))"
proof (intro conjI impI)
  assume a: "computer st \<noteq> None \<and> status st = Logged_in \<and> email_content st ''body'' = Some body \<and>
    body \<noteq> [] \<and> fst (run_with_safety_retry run (Prompt (initial_prompt body)) st) = Inr result"
  let ?st3 = "log ''Agent initialized, starting form filling process...'' Info
      (set_status Filling_form (log ''Starting form filling process with OpenAI Agent...'' Info st))"
  from a have r: "fst (run_with_safety_retry run (Prompt (initial_prompt body)) st) = Inr result"
    by simp
  obtain st4 where run: "run_with_safety_retry run (Prompt (initial_prompt body)) ?st3 = (Inr result, st4)"
    and st4: "st4 = ?st3 \<or> st4 = log ''Safety checks failed, retrying...'' Warn ?st3"
    using run_with_safety_retry_cases [OF r, of ?st3] by metis
  from a obtain c where c: "computer st = Some c" by auto
  have fill: "fill_applicant_form run st = fill_form_finish result st4"
    using a run by (simp add: fill_applicant_form_def c)
  show "if py_in HUMAN_INPUT_REQUIRED (final_output result)
     then \<exists>field_name explanation st'.
            parse_input_request (final_output result) = Inr (field_name, explanation) \<and>
            fill_applicant_form run st =
              (Requires_input field_name
                 (''Please provide value for: '' @ field_name @ ''\<newline>'' @ explanation), st') \<and>
            status st' = Waiting_for_input \<and> require_human_input st' \<and>
            human_input_field st' = field_name \<and>
            human_input_prompt st' =
              ''Please provide value for: '' @ field_name @ ''\<newline>'' @ explanation
     else fst (fill_applicant_form run st) = RTrue \<and>
          status (snd (fill_applicant_form run st)) = Form_filled \<and>
          require_human_input (snd (fill_applicant_form run st)) = require_human_input st"
  proof (cases "py_in HUMAN_INPUT_REQUIRED (final_output result)")
    case True
    then obtain f e where p: "parse_input_request (final_output result) = Inr (f, e)"
      using parse_input_request_defined by blast
    with True show ?thesis
      by (simp add: fill fill_form_finish_def request_human_input_def)
  next
    case False
    with st4 show ?thesis
      by (auto simp: fill fill_form_finish_def)
  qed
next
  let ?body = "case email_content sw ''body'' of None \<Rightarrow> [] | Some b \<Rightarrow> b"
  let ?prompt = "continuation_prompt ?body
       (human_inputs_text (dict_set (human_input_field sw) v (human_inputs_collected sw)))"
  assume a: "computer sw \<noteq> None \<and> status sw = Waiting_for_input \<and>
    fst (run_with_safety_retry run2 (Prompt ?prompt) sw) = Inr result2"
  let ?st2 = "log ''Agent continuing form filling with human input...'' Info (store_human_input v sw)"
  from a have r: "fst (run_with_safety_retry run2 (Prompt ?prompt) sw) = Inr result2"
    by simp
  obtain st3 where run2: "run_with_safety_retry run2 (Prompt ?prompt) ?st2 = (Inr result2, st3)"
    and st3: "st3 = ?st2 \<or> st3 = log ''Safety checks failed, retrying...'' Warn ?st2"
    using run_with_safety_retry_cases [OF r, of ?st2] by metis
  have stored: "email_content (store_human_input v sw) = email_content sw"
    "human_inputs_collected (store_human_input v sw) =
       dict_set (human_input_field sw) v (human_inputs_collected sw)"
    "\<not> require_human_input (store_human_input v sw)"
    by (simp_all add: store_human_input_def)
  from a obtain c where c: "computer sw = Some c" by auto
  have prov: "provide_human_input run2 v sw = provide_input_finish result2 st3"
    using a run2 by (simp add: provide_human_input_def stored Let_def c)
  show "if py_in HUMAN_INPUT_REQUIRED (final_output result2)
     then \<exists>field_name explanation st'.
            parse_input_request (final_output result2) = Inr (field_name, explanation) \<and>
            provide_human_input run2 v sw =
              (Requires_input field_name
                 (''Please provide value for: '' @ field_name @ ''\<newline>'' @ explanation), st') \<and>
            status st' = Waiting_for_input \<and> require_human_input st' \<and>
            human_input_field st' = field_name \<and>
            human_input_prompt st' =
              ''Please provide value for: '' @ field_name @ ''\<newline>'' @ explanation
     else fst (provide_human_input run2 v sw) = Message True ''Form filled successfully'' \<and>
          status (snd (provide_human_input run2 v sw)) = Form_filled \<and>
          \<not> require_human_input (snd (provide_human_input run2 v sw))"
  proof (cases "py_in HUMAN_INPUT_REQUIRED (final_output result2)")
    case True
    then obtain f e where p: "parse_input_request (final_output result2) = Inr (f, e)"
      using parse_input_request_defined by blast
    with True show ?thesis
      by (simp add: prov provide_input_finish_def request_human_input_def)
  next
    case False
    with st3 stored show ?thesis
      by (auto simp: prov provide_input_finish_def)
  qed
qed

text \<open>
  The theorem in the end-to-end scenario: the fill that asks for the industry, then the
  input after which the agent submits the form.
\<close>

theorem marker_decides_the_outcome_witness:
  "fst (fill_applicant_form
          (agent_says ''Stopped. HUMAN_INPUT_REQUIRED: Industry - no industry mentioned'')
          logged_in_session) =
     Requires_input ''Industry'' ''Please provide value for: Industry\<newline>no industry mentioned'' \<and>
   status (snd (fill_applicant_form
          (agent_says ''Stopped. HUMAN_INPUT_REQUIRED: Industry - no industry mentioned'')
          logged_in_session)) = Waiting_for_input \<and>
   fst (provide_human_input (agent_says ''Form submitted successfully.'') ''Plumbing'' waiting_session) =
     Message True ''Form filled successfully'' \<and>
   status (snd (provide_human_input (agent_says ''Form submitted successfully.'') ''Plumbing''
          waiting_session)) = Form_filled"
proof -
  have no_marker: "\<not> py_in HUMAN_INPUT_REQUIRED ''Form submitted successfully.''"
    by code_simp
  show ?thesis
    using marker_decides_the_outcome
      [where st = logged_in_session and body = "''Acme Corp, 123 Main St''"
         and run = "agent_says ''Stopped. HUMAN_INPUT_REQUIRED: Industry - no industry mentioned''"
         and result = "\<lparr>final_output = ''Stopped. HUMAN_INPUT_REQUIRED: Industry - no industry mentioned'',
            to_input_list = [[(''role'', PStr ''assistant'')]]\<rparr>"
         and sw = waiting_session and ?run2.0 = "agent_says ''Form submitted successfully.''"
         and v = "''Plumbing''"
         and ?result2.0 = "\<lparr>final_output = ''Form submitted successfully.'',
            to_input_list = [[(''role'', PStr ''assistant'')]]\<rparr>"]
    by (auto simp add: logged_in_session_fields waiting_session_fields example_lookups
        agent_says_retry marker_example no_marker simp del: py_in.simps)
qed

text \<open>
  C5 fails on the code. The agent's first answer carries a pending safety check, as a
  list; \<open>del vals["pending_safety_checks"]\<close> raises \<open>TypeError\<close> on a list, so both
  methods log the warning, take their \<open>except\<close> branch and end in status \<open>error\<close>. The
  agent is not run a second time: the one here would have submitted the form.
\<close>

theorem pending_checks_end_in_error:
  "fill_applicant_form agent_with_pending_checks logged_in_session =
     (RFalse,
      log ''Error during form filling with agent: list indices must be integers or slices, not str'' Err
        (set_status Error
          (log ''Safety checks failed, retrying...'' Warn
            (log ''Agent initialized, starting form filling process...'' Info
              (set_status Filling_form
                (log ''Starting form filling process with OpenAI Agent...'' Info logged_in_session)))))) \<and>
   status (snd (fill_applicant_form agent_with_pending_checks logged_in_session)) = Error \<and>
   provide_human_input agent_with_pending_checks ''Plumbing'' waiting_session =
     (Message False ''list indices must be integers or slices, not str'',
      log ''Error during form filling with human input: list indices must be integers or slices, not str'' Err
        (set_status Error
          (log ''Safety checks failed, retrying...'' Warn
            (log ''Agent continuing form filling with human input...'' Info
              (store_human_input ''Plumbing'' waiting_session))))) \<and>
   status (snd (provide_human_input agent_with_pending_checks ''Plumbing'' waiting_session)) = Error"
  by (simp add: fill_applicant_form_def provide_human_input_def logged_in_session_fields
      waiting_session_fields example_lookups run_with_safety_retry_def agent_with_pending_checks_def
      pending_checks_def dict_get_def Let_def)

subsection \<open>Refused operations\<close>

text \<open>
  C7, as amended. On a session that does not wait for input, \<open>provide_human_input\<close>
  returns \<open>False\<close> and changes nothing but the log: the status, the collected inputs and
  the pending request are as before, and the log has one more entry, at level error.
\<close>

theorem input_refused_when_not_waiting:
  "status st \<noteq> Waiting_for_input \<Longrightarrow>
     provide_human_input run v st =
       (RFalse,
        log (if computer st = None then ''Scrapybara instance not initialized''
             else ''Not waiting for human input'') Err st) \<and>
     status (snd (provide_human_input run v st)) = status st \<and>
     human_inputs_collected (snd (provide_human_input run v st)) = human_inputs_collected st \<and>
     require_human_input (snd (provide_human_input run v st)) = require_human_input st \<and>
     human_input_field (snd (provide_human_input run v st)) = human_input_field st \<and>
     human_input_prompt (snd (provide_human_input run v st)) = human_input_prompt st \<and>
     length (log_entries (snd (provide_human_input run v st))) = Suc (length (log_entries st))"
  by (simp add: provide_human_input_def)

text \<open>The theorem on the session that has just been initialised.\<close>

theorem input_refused_when_not_waiting_witness:
  "status ready_session \<noteq> Waiting_for_input \<and>
   provide_human_input (agent_says ''done'') ''123 Main St'' ready_session =
     (RFalse, log ''Not waiting for human input'' Err ready_session)"
proof -
  have h: "status ready_session \<noteq> Waiting_for_input"
    by (simp add: ready_session_fields)
  show ?thesis
    using h input_refused_when_not_waiting [OF h, of "agent_says ''done''" "''123 Main St''"]
    by (simp add: ready_session_fields)
qed

text \<open>C7 as stated fails there: the log entries after the call are not those before it.\<close>

theorem refused_input_is_logged:
  "status ready_session \<noteq> Waiting_for_input \<and>
   log_entries (snd (provide_human_input (agent_says ''done'') ''123 Main St'' ready_session)) =
     log_entries ready_session @ [\<lparr>level = Err, message = ''Not waiting for human input''\<rparr>] \<and>
   log_entries (snd (provide_human_input (agent_says ''done'') ''123 Main St'' ready_session)) \<noteq>
     log_entries ready_session"
  by (simp add: provide_human_input_def ready_session_fields)

text \<open>
  C8, as amended. On a session with a computer, \<open>login_with_agent\<close> without one of the
  three credentials (absent or empty) logs "Missing login credentials" and returns
  \<open>False\<close>; on a logged in session, \<open>fill_applicant_form\<close> without an email body logs
  "No email content available for form filling" and returns \<open>False\<close>. Neither changes
  the status.
\<close>

theorem missing_data_leaves_status:
  "(computer st \<noteq> None \<and>
    (py_not (credentials st ''destination_url'') \<or> py_not (credentials st ''username'') \<or>
     py_not (credentials st ''password''))
    \<longrightarrow> login_with_agent run st = (False, log ''Missing login credentials'' Err st) \<and>
        status (snd (login_with_agent run st)) = status st)
   \<and>
   (computer sf \<noteq> None \<and> status sf = Logged_in \<and> py_not (email_content sf ''body'')
    \<longrightarrow> fill_applicant_form run sf =
          (RFalse, log ''No email content available for form filling'' Err sf) \<and>
        status (snd (fill_applicant_form run sf)) = Logged_in)"
  by (auto simp add: login_with_agent_def fill_applicant_form_def py_not_def split: option.splits)

text \<open>The theorem on a session without password and on a logged in session without email.\<close>

theorem missing_data_leaves_status_witness:
  "computer no_password_session \<noteq> None \<and> py_not (credentials no_password_session ''password'') \<and>
   login_with_agent (agent_says ''Logged in.'') no_password_session =
     (False, log ''Missing login credentials'' Err no_password_session) \<and>
   computer no_email_session \<noteq> None \<and> status no_email_session = Logged_in \<and>
   py_not (email_content no_email_session ''body'') \<and>
   fill_applicant_form (agent_says ''Form submitted successfully.'') no_email_session =
     (RFalse, log ''No email content available for form filling'' Err no_email_session)"
  using missing_data_leaves_status
    [of no_password_session "agent_says ''Logged in.''" no_email_session]
    missing_data_leaves_status
    [of no_password_session "agent_says ''Form submitted successfully.''" no_email_session]
  by (simp add: no_password_session_fields no_email_session_fields py_not_def)

text \<open>
  C8 as stated fails on both: the status after the failed login is \<open>initialized\<close>, the
  status after the failed fill is \<open>logged_in\<close>, not \<open>error\<close>.
\<close>

theorem missing_password_is_no_error:
  "py_not (credentials no_password_session ''password'') \<and>
   fst (login_with_agent (agent_says ''Logged in.'') no_password_session) = False \<and>
   status (snd (login_with_agent (agent_says ''Logged in.'') no_password_session)) = Initialized \<and>
   py_not (email_content no_email_session ''body'') \<and>
   fst (fill_applicant_form (agent_says ''Form submitted successfully.'') no_email_session) = RFalse \<and>
   status (snd (fill_applicant_form (agent_says ''Form submitted successfully.'') no_email_session)) =
     Logged_in"
  by (simp add: login_with_agent_def fill_applicant_form_def no_password_session_fields
      no_email_session_fields py_not_def)

text \<open>
  C10. While \<open>computer\<close> is unset, \<open>login_with_agent\<close>, \<open>fill_applicant_form\<close> and
  \<open>provide_human_input\<close> each return \<open>False\<close> at once, whatever the agent would do and
  whatever the status is: the session only gains the log entry
  "Scrapybara instance not initialized", and \<open>status\<close> is as before.
\<close>

theorem unset_computer_fails_at_once:
  "computer st = None \<Longrightarrow>
     login_with_agent run st = (False, log ''Scrapybara instance not initialized'' Err st) \<and>
     fill_applicant_form run st = (RFalse, log ''Scrapybara instance not initialized'' Err st) \<and>
     provide_human_input run v st = (RFalse, log ''Scrapybara instance not initialized'' Err st) \<and>
     status (snd (login_with_agent run st)) = status st \<and>
     status (snd (fill_applicant_form run st)) = status st \<and>
     status (snd (provide_human_input run v st)) = status st"
  by (simp add: login_with_agent_def fill_applicant_form_def provide_human_input_def)

text \<open>
  The theorem at a session that waits for input and has no computer: the input is refused
  and the session goes on waiting.
\<close>

theorem unset_computer_fails_at_once_witness:
  "computer (blank_session\<lparr>status := Waiting_for_input\<rparr>) = None \<and>
   fst (provide_human_input (agent_says ''done'') ''x''
          (blank_session\<lparr>status := Waiting_for_input\<rparr>)) = RFalse \<and>
   status (snd (provide_human_input (agent_says ''done'') ''x''
          (blank_session\<lparr>status := Waiting_for_input\<rparr>))) = Waiting_for_input"
proof -
  have h: "computer (blank_session\<lparr>status := Waiting_for_input\<rparr>) = None"
    by (simp add: blank_session_def)
  show ?thesis
    using h unset_computer_fails_at_once [OF h, of "agent_says ''done''" "''x''"]
    by simp
qed

subsection \<open>The full run\<close>

text \<open>
  C9 fails on the code. With complete credentials and no email body, initialisation and
  login succeed and \<open>fill_applicant_form\<close> returns \<open>False\<close> from its guard;
  \<open>run_automation\<close> then returns the failure "Form filling failed" without raising, so
  the status stays \<open>logged_in\<close>, where a failed initialisation or login ends in \<open>error\<close>.
\<close>

theorem failed_fill_leaves_logged_in:
  "run_automation (Started ''i-1'') (agent_says ''Logged in.'')
       (new_session (Loaded example_credentials Map.empty)) =
     (Message False ''Form filling failed'',
      log ''No email content available for form filling'' Err
        (snd (login_with_agent (agent_says ''Logged in.'')
           (snd (initialize_scrapybara (Started ''i-1'')
              (new_session (Loaded example_credentials Map.empty))))))) \<and>
   status (snd (run_automation (Started ''i-1'') (agent_says ''Logged in.'')
       (new_session (Loaded example_credentials Map.empty)))) = Logged_in"
  by (simp add: run_automation_def initialize_scrapybara_def login_with_agent_def
      fill_applicant_form_def blank_session_def example_lookups py_not_def agent_says_def)

subsection \<open>What each method does to the status, the request and the history\<close>

lemma history_ok_log [simp]: "history_ok (log m l st) = history_ok st"
  by (simp add: history_ok_def)

lemma history_ok_set_status:
  "history_ok st \<Longrightarrow> code_edge (status st) s \<Longrightarrow> history_ok (set_status s st)"
  by (simp add: history_ok_def successively_append_iff)

lemma history_ok_updates [simp]:
  "history_ok (st\<lparr>computer := c\<rparr>) = history_ok st"
  "history_ok (st\<lparr>require_human_input := b\<rparr>) = history_ok st"
  "history_ok (st\<lparr>human_input_prompt := p\<rparr>) = history_ok st"
  "history_ok (st\<lparr>human_input_field := f\<rparr>) = history_ok st"
  "history_ok (st\<lparr>human_inputs_collected := d\<rparr>) = history_ok st"
  by (simp_all add: history_ok_def)

lemma run_with_safety_retry_keeps:
  assumes "run_with_safety_retry run input st = (r, st')"
  shows "status st' = status st" "status_history st' = status_history st"
    "computer st' = computer st" "require_human_input st' = require_human_input st"
    "human_inputs_collected st' = human_inputs_collected st"
    "email_content st' = email_content st" "credentials st' = credentials st"
    "history_ok st' = history_ok st"
  using assms run_with_safety_retry_session [of run input st] by auto

lemma initialize_history_ok:
  "history_ok st \<Longrightarrow> history_ok (snd (initialize_scrapybara met st))"
  by (cases met)
     (simp_all add: initialize_scrapybara_def history_ok_set_status code_edge_def spec_edge_def)

lemma initialize_effect:
  "require_human_input (snd (initialize_scrapybara met st)) = require_human_input st \<and>
   (status (snd (initialize_scrapybara met st)) = Initialized \<or>
    status (snd (initialize_scrapybara met st)) = Error)"
  by (cases met) (simp_all add: initialize_scrapybara_def)

lemma login_history_ok:
  "history_ok st \<Longrightarrow> history_ok (snd (login_with_agent run st))"
  by (simp add: login_with_agent_def Let_def history_ok_set_status code_edge_def spec_edge_def
      split: sum.splits)

lemma login_effect:
  "require_human_input (snd (login_with_agent run st)) = require_human_input st \<and>
   (status (snd (login_with_agent run st)) = Logged_in \<or>
    status (snd (login_with_agent run st)) = Error \<or>
    status (snd (login_with_agent run st)) = status st \<and> \<not> fst (login_with_agent run st))"
  by (simp add: login_with_agent_def Let_def split: sum.splits)

lemma login_success:
  "fst (login_with_agent run st) \<Longrightarrow>
     status (snd (login_with_agent run st)) = Logged_in \<and> computer st \<noteq> None"
  by (simp add: login_with_agent_def Let_def split: sum.splits if_splits)

lemma login_keeps_computer: "computer (snd (login_with_agent run st)) = computer st"
  by (simp add: login_with_agent_def Let_def split: sum.splits)

lemma fill_form_finish_effect:
  assumes "history_ok st" "status st = Filling_form"
  shows "history_ok (snd (fill_form_finish result st)) \<and>
    computer (snd (fill_form_finish result st)) = computer st \<and>
    ((fst (fill_form_finish result st) = RTrue \<and>
      status (snd (fill_form_finish result st)) = Form_filled \<and>
      require_human_input (snd (fill_form_finish result st)) = require_human_input st) \<or>
     ((\<exists>f p. fst (fill_form_finish result st) = Requires_input f p) \<and>
      status (snd (fill_form_finish result st)) = Waiting_for_input \<and>
      require_human_input (snd (fill_form_finish result st))) \<or>
     (fst (fill_form_finish result st) = RFalse \<and>
      status (snd (fill_form_finish result st)) = Error \<and>
      require_human_input (snd (fill_form_finish result st)) = require_human_input st))"
  using assms
  by (auto simp add: fill_form_finish_def request_human_input_def history_ok_set_status
      code_edge_def spec_edge_def Let_def split: sum.splits simp del: py_in.simps)

lemma fill_applicant_form_effect:
  assumes "history_ok st"
  shows "history_ok (snd (fill_applicant_form run st)) \<and>
    computer (snd (fill_applicant_form run st)) = computer st \<and>
    ((status st = Logged_in \<and> fst (fill_applicant_form run st) = RTrue \<and>
      status (snd (fill_applicant_form run st)) = Form_filled \<and>
      require_human_input (snd (fill_applicant_form run st)) = require_human_input st) \<or>
     ((\<exists>f p. fst (fill_applicant_form run st) = Requires_input f p) \<and>
      status (snd (fill_applicant_form run st)) = Waiting_for_input \<and>
      require_human_input (snd (fill_applicant_form run st))) \<or>
     (status st = Logged_in \<and> fst (fill_applicant_form run st) = RFalse \<and>
      status (snd (fill_applicant_form run st)) = Error \<and>
      require_human_input (snd (fill_applicant_form run st)) = require_human_input st) \<or>
     (fst (fill_applicant_form run st) = RFalse \<and>
      status (snd (fill_applicant_form run st)) = status st \<and>
      require_human_input (snd (fill_applicant_form run st)) = require_human_input st))"
proof -
  let ?body = "case email_content st ''body'' of None \<Rightarrow> [] | Some b \<Rightarrow> b"
  let ?st3 = "log ''Agent initialized, starting form filling process...'' Info
      (set_status Filling_form (log ''Starting form filling process with OpenAI Agent...'' Info st))"
  show ?thesis
  proof (cases "computer st \<noteq> None \<and> status st = Logged_in \<and> ?body \<noteq> []")
    case False
    then show ?thesis using assms by (auto simp: fill_applicant_form_def)
  next
    case True
    then have ok3: "history_ok ?st3"
      using assms by (simp add: history_ok_set_status code_edge_def spec_edge_def)
    obtain r st4 where run: "run_with_safety_retry run (Prompt (initial_prompt ?body)) ?st3 = (r, st4)"
      by (cases "run_with_safety_retry run (Prompt (initial_prompt ?body)) ?st3")
    note keeps = run_with_safety_retry_keeps [OF run]
    have ok4: "history_ok st4" "status st4 = Filling_form" "computer st4 = computer st"
      "require_human_input st4 = require_human_input st"
      using ok3 keeps by simp_all
    show ?thesis
    proof (cases r)
      case (Inl e)
      then have "fill_applicant_form run st =
        (RFalse, log (''Error during form filling with agent: '' @ str_exn e) Err (set_status Error st4))"
        using True run by (auto simp: fill_applicant_form_def)
      then show ?thesis
        using ok4 True by (simp add: history_ok_set_status code_edge_def spec_edge_def)
    next
      case (Inr result)
      then have "fill_applicant_form run st = fill_form_finish result st4"
        using True run by (auto simp: fill_applicant_form_def)
      then show ?thesis
        using fill_form_finish_effect [OF ok4(1,2), of result] ok4 True by auto
    qed
  qed
qed

lemma store_human_input_fields:
  "status (store_human_input v st) = Filling_form"
  "computer (store_human_input v st) = computer st"
  "\<not> require_human_input (store_human_input v st)"
  "email_content (store_human_input v st) = email_content st"
  "human_inputs_collected (store_human_input v st) =
     dict_set (human_input_field st) v (human_inputs_collected st)"
  "status_history (store_human_input v st) = status_history st @ [Filling_form]"
  by (simp_all add: store_human_input_def)

lemma store_human_input_history_ok:
  "history_ok st \<Longrightarrow> status st = Waiting_for_input \<Longrightarrow> history_ok (store_human_input v st)"
  by (simp add: store_human_input_def history_ok_set_status code_edge_def spec_edge_def)

lemma provide_input_finish_effect:
  assumes "history_ok st" "status st = Filling_form"
  shows "history_ok (snd (provide_input_finish result st)) \<and>
    computer (snd (provide_input_finish result st)) = computer st \<and>
    ((status (snd (provide_input_finish result st)) = Form_filled \<and>
      require_human_input (snd (provide_input_finish result st)) = require_human_input st) \<or>
     (status (snd (provide_input_finish result st)) = Waiting_for_input \<and>
      require_human_input (snd (provide_input_finish result st))) \<or>
     (status (snd (provide_input_finish result st)) = Error \<and>
      require_human_input (snd (provide_input_finish result st)) = require_human_input st))"
  using assms
  by (auto simp add: provide_input_finish_def request_human_input_def history_ok_set_status
      code_edge_def spec_edge_def Let_def split: sum.splits simp del: py_in.simps)

lemma provide_human_input_effect:
  assumes "history_ok st"
  shows "history_ok (snd (provide_human_input run v st)) \<and>
    computer (snd (provide_human_input run v st)) = computer st \<and>
    ((status (snd (provide_human_input run v st)) = Form_filled \<and>
      \<not> require_human_input (snd (provide_human_input run v st))) \<or>
     (status (snd (provide_human_input run v st)) = Waiting_for_input \<and>
      require_human_input (snd (provide_human_input run v st))) \<or>
     (status (snd (provide_human_input run v st)) = Error \<and>
      \<not> require_human_input (snd (provide_human_input run v st))) \<or>
     (status (snd (provide_human_input run v st)) = status st \<and>
      require_human_input (snd (provide_human_input run v st)) = require_human_input st))"
proof (cases "computer st \<noteq> None \<and> status st = Waiting_for_input")
  case False
  then show ?thesis using assms by (auto simp: provide_human_input_def)
next
  case True
  let ?st1 = "store_human_input v st"
  let ?st2 = "log ''Agent continuing form filling with human input...'' Info ?st1"
  let ?prompt = "continuation_prompt (case email_content ?st1 ''body'' of None \<Rightarrow> [] | Some b \<Rightarrow> b)
      (human_inputs_text (human_inputs_collected ?st1))"
  have ok2: "history_ok ?st2" using assms True by (simp add: store_human_input_history_ok)
  obtain r st3 where run: "run_with_safety_retry run (Prompt ?prompt) ?st2 = (r, st3)"
    by (cases "run_with_safety_retry run (Prompt ?prompt) ?st2")
  note keeps = run_with_safety_retry_keeps [OF run]
  have ok3: "history_ok st3" "status st3 = Filling_form" "computer st3 = computer st"
    "\<not> require_human_input st3"
    using ok2 keeps by (simp_all add: store_human_input_fields)
  show ?thesis
  proof (cases r)
    case (Inl e)
    then have "provide_human_input run v st =
      (Message False (str_exn e),
       log (''Error during form filling with human input: '' @ str_exn e) Err (set_status Error st3))"
      using True run by (auto simp: provide_human_input_def Let_def)
    then show ?thesis
      using ok3 by (simp add: history_ok_set_status code_edge_def spec_edge_def)
  next
    case (Inr result)
    then have "provide_human_input run v st = provide_input_finish result st3"
      using True run by (auto simp: provide_human_input_def Let_def)
    then show ?thesis
      using provide_input_finish_effect [OF ok3(1,2), of result] ok3 by auto
  qed
qed

lemma automation_failed_effect:
  "history_ok st \<Longrightarrow> history_ok (snd (automation_failed e st))"
  "status (snd (automation_failed e st)) = Error"
  "require_human_input (snd (automation_failed e st)) = require_human_input st"
  by (simp_all add: automation_failed_def history_ok_set_status code_edge_def spec_edge_def)

lemma run_automation_effect:
  assumes "history_ok st"
  shows "history_ok (snd (run_automation met run st)) \<and>
    (status (snd (run_automation met run st)) = Waiting_for_input \<and>
       require_human_input (snd (run_automation met run st)) \<or>
     status (snd (run_automation met run st)) \<noteq> Waiting_for_input \<and>
       require_human_input (snd (run_automation met run st)) = require_human_input st) \<and>
    (status (snd (run_automation met run st)) = Waiting_for_input \<longrightarrow>
       computer (snd (run_automation met run st)) \<noteq> None)"
proof -
  obtain b1 st1 where init: "initialize_scrapybara met st = (b1, st1)"
    by (cases "initialize_scrapybara met st")
  have ok1: "history_ok st1" "require_human_input st1 = require_human_input st"
    using initialize_history_ok [OF assms, of met] initialize_effect [of met st] init by simp_all
  show ?thesis
  proof (cases b1)
    case False
    then show ?thesis
      using init ok1 by (simp add: run_automation_def automation_failed_effect)
  next
    case True
    note b1 = this
    obtain b2 st2 where login: "login_with_agent run st1 = (b2, st2)"
      by (cases "login_with_agent run st1")
    have ok2: "history_ok st2" "require_human_input st2 = require_human_input st"
      using login_history_ok [OF ok1(1), of run] login_effect [of run st1] login ok1 by simp_all
    show ?thesis
    proof (cases b2)
      case False
      then show ?thesis
        using init login b1 ok2 by (simp add: run_automation_def automation_failed_effect)
    next
      case True
      obtain r st3 where fill: "fill_applicant_form run st2 = (r, st3)"
        by (cases "fill_applicant_form run st2")
      note eff = fill_applicant_form_effect [OF ok2(1), of run]
      have st2: "status st2 = Logged_in" "computer st2 \<noteq> None"
        using login_success [of run st1] login_keeps_computer [of run st1] login True by simp_all
      show ?thesis
      proof (cases r)
        case RTrue
        then have "status st3 = Form_filled" "history_ok st3"
          "require_human_input st3 = require_human_input st"
          using eff fill ok2 by auto
        then show ?thesis
          using init login b1 True fill RTrue
          by (simp add: run_automation_def history_ok_set_status code_edge_def spec_edge_def)
      next
        case RFalse
        then have "history_ok st3" "status st3 \<noteq> Waiting_for_input"
          "require_human_input st3 = require_human_input st"
          using eff fill ok2 st2 by auto
        then show ?thesis
          using init login b1 True fill RFalse by (simp add: run_automation_def)
      next
        case (Requires_input f p)
        then have "history_ok st3" "status st3 = Waiting_for_input" "require_human_input st3"
          "computer st3 \<noteq> None"
          using eff fill st2 by auto
        then show ?thesis
          using init login b1 True fill Requires_input by (simp add: run_automation_def)
      next
        case (Message b m)
        then show ?thesis using eff fill by auto
      next
        case (Paused f p)
        then show ?thesis using eff fill by auto
      qed
    qed
  qed
qed

lemma cleanup_effect:
  "history_ok (cleanup stopped st) = history_ok st"
  "status (cleanup stopped st) = status st"
  "require_human_input (cleanup stopped st) = require_human_input st"
  "computer (cleanup stopped st) = computer st"
  by (simp_all add: cleanup_def Let_def split: option.splits)

lemma new_session_history_ok: "history_ok (new_session loaded)"
  by (cases loaded) (simp_all add: blank_session_def history_ok_def)

lemma new_session_no_request:
  "\<not> require_human_input (new_session loaded)" "status (new_session loaded) = Initialized"
  by (cases loaded; simp add: blank_session_def)+

lemma step_history_ok: "history_ok st \<Longrightarrow> history_ok (step op st)"
proof (cases op)
  case (Initialize met)
  then show "history_ok st \<Longrightarrow> ?thesis" by (simp add: initialize_history_ok)
next
  case (Login run)
  then show "history_ok st \<Longrightarrow> ?thesis" by (simp add: login_history_ok)
next
  case (Fill_form run)
  then show "history_ok st \<Longrightarrow> ?thesis" using fill_applicant_form_effect [of st run] by simp
next
  case (Provide_human_input run v)
  then show "history_ok st \<Longrightarrow> ?thesis" using provide_human_input_effect [of st run v] by simp
next
  case (Run_full met run)
  then show "history_ok st \<Longrightarrow> ?thesis" using run_automation_effect [of st met run] by simp
next
  case (Cleanup stopped)
  then show "history_ok st \<Longrightarrow> ?thesis" by (simp add: cleanup_effect)
qed

lemma run_ops_history_ok: "history_ok st \<Longrightarrow> history_ok (run_ops ops st)"
  unfolding run_ops_def by (induction ops arbitrary: st) (simp_all add: step_history_ok)

subsection \<open>The status along a sequence of operations\<close>

text \<open>
  C1, as amended. After every sequence of operations on a new session, every two
  neighbours in the history of \<open>status\<close> are an edge of the state graph or lead to
  \<open>initializing\<close> or to \<open>logging_in\<close>: \<open>initialize_scrapybara\<close> and \<open>login_with_agent\<close>
  start from any status, so \<open>initialized\<close> can be entered again.
\<close>

theorem status_changes_follow_code_edges:
  "status_history (run_ops ops (new_session loaded)) \<noteq> [] \<and>
   last (status_history (run_ops ops (new_session loaded))) = status (run_ops ops (new_session loaded)) \<and>
   successively code_edge (status_history (run_ops ops (new_session loaded)))"
  using run_ops_history_ok [OF new_session_history_ok, of ops loaded]
  by (simp add: history_ok_def)

lemma restart_ops_history:
  "status_history (run_ops restart_ops (new_session (Loaded example_credentials example_email))) =
     [Initialized, Initializing, Error, Initializing, Initialized]"
  by (simp add: restart_ops_def run_ops_def initialize_scrapybara_def blank_session_def)

text \<open>The theorem on an initialisation that fails followed by one that succeeds.\<close>

theorem status_changes_follow_code_edges_witness:
  "successively code_edge [Initialized, Initializing, Error, Initializing, Initialized]"
  using status_changes_follow_code_edges
    [of restart_ops "Loaded example_credentials example_email"]
  by (simp add: restart_ops_history del: new_session.simps)

text \<open>
  C1 as stated fails on that sequence: the status goes from \<open>error\<close> to \<open>initializing\<close>,
  which is no edge of the graph, and is \<open>initialized\<close> again at the end.
\<close>

theorem initialize_leaves_error:
  "status_history (run_ops restart_ops (new_session (Loaded example_credentials example_email))) =
     [Initialized, Initializing, Error, Initializing, Initialized] \<and>
   \<not> spec_edge Error Initializing \<and>
   \<not> successively spec_edge
       (status_history (run_ops restart_ops (new_session (Loaded example_credentials example_email))))"
  by (simp add: restart_ops_history spec_edge_def del: new_session.simps)

subsection \<open>The pending request along a sequence of operations\<close>

lemma step_waiting_has_request:
  assumes "history_ok st" "status st = Waiting_for_input \<longrightarrow> require_human_input st"
  shows "status (step op st) = Waiting_for_input \<longrightarrow> require_human_input (step op st)"
proof (cases op)
  case (Initialize met)
  then show ?thesis using initialize_effect [of met st] by auto
next
  case (Login run)
  then show ?thesis using login_effect [of run st] assms by auto
next
  case (Fill_form run)
  then show ?thesis using fill_applicant_form_effect [OF assms(1), of run] assms(2) by auto
next
  case (Provide_human_input run v)
  then show ?thesis using provide_human_input_effect [OF assms(1), of run v] assms(2) by auto
next
  case (Run_full met run)
  then show ?thesis using run_automation_effect [OF assms(1), of met run] by auto
next
  case (Cleanup stopped)
  then show ?thesis using assms by (simp add: cleanup_effect)
qed

lemma step_request_iff_waiting:
  assumes "history_ok st" "require_human_input st \<longleftrightarrow> status st = Waiting_for_input"
    "restarts op \<longrightarrow> \<not> require_human_input st"
  shows "require_human_input (step op st) \<longleftrightarrow> status (step op st) = Waiting_for_input"
proof (cases op)
  case (Initialize met)
  then show ?thesis using initialize_effect [of met st] assms by auto
next
  case (Login run)
  then show ?thesis using login_effect [of run st] assms by auto
next
  case (Fill_form run)
  then show ?thesis using fill_applicant_form_effect [OF assms(1), of run] assms(2) by auto
next
  case (Provide_human_input run v)
  then show ?thesis using provide_human_input_effect [OF assms(1), of run v] assms(2) by auto
next
  case (Run_full met run)
  then show ?thesis using run_automation_effect [OF assms(1), of met run] assms by auto
next
  case (Cleanup stopped)
  then show ?thesis using assms by (simp add: cleanup_effect)
qed

lemma run_ops_waiting_has_request:
  "history_ok st \<Longrightarrow> (status st = Waiting_for_input \<longrightarrow> require_human_input st) \<Longrightarrow>
   status (run_ops ops st) = Waiting_for_input \<longrightarrow> require_human_input (run_ops ops st)"
proof (induction ops arbitrary: st)
  case Nil
  then show ?case by (simp add: run_ops_def)
next
  case (Cons op ops)
  have "history_ok (step op st)" using Cons.prems(1) by (rule step_history_ok)
  moreover have "status (step op st) = Waiting_for_input \<longrightarrow> require_human_input (step op st)"
    using Cons.prems by (rule step_waiting_has_request)
  ultimately show ?case using Cons.IH [of "step op st"] by (simp add: run_ops_def)
qed

lemma run_ops_request_iff_waiting:
  "history_ok st \<Longrightarrow> (require_human_input st \<longleftrightarrow> status st = Waiting_for_input) \<Longrightarrow>
   no_restart_while_pending ops st \<Longrightarrow>
   require_human_input (run_ops ops st) \<longleftrightarrow> status (run_ops ops st) = Waiting_for_input"
proof (induction ops arbitrary: st)
  case Nil
  then show ?case by (simp add: run_ops_def)
next
  case (Cons op ops)
  have "history_ok (step op st)" using Cons.prems(1) by (rule step_history_ok)
  moreover have "require_human_input (step op st) \<longleftrightarrow> status (step op st) = Waiting_for_input"
    using Cons.prems by (intro step_request_iff_waiting) simp_all
  moreover have "no_restart_while_pending ops (step op st)" using Cons.prems(3) by simp
  ultimately show ?case using Cons.IH [of "step op st"] by (simp add: run_ops_def)
qed

lemma scenario_ops_reach_waiting:
  "run_ops scenario_ops (new_session (Loaded example_credentials example_email)) = waiting_session"
  by (simp add: scenario_ops_def run_ops_def waiting_session_def logged_in_session_def ready_session_def)

lemma scenario_ops_no_restart:
  "no_restart_while_pending scenario_ops (new_session (Loaded example_credentials example_email))"
  using ready_session_fields(5) logged_in_session_fields(5)
  by (simp add: scenario_ops_def blank_session_def ready_session_def logged_in_session_def)

text \<open>
  C2, as amended. After every sequence of operations on a new session, a session that
  waits for input has its request flag set. The converse holds as long as no
  initialisation, login or full run is started on a session whose flag is set: these
  three move the status on and leave the flag as it is.
\<close>

theorem pending_request_and_waiting:
  "(status (run_ops ops (new_session loaded)) = Waiting_for_input
      \<longrightarrow> require_human_input (run_ops ops (new_session loaded))) \<and>
   (no_restart_while_pending ops (new_session loaded)
      \<longrightarrow> (require_human_input (run_ops ops (new_session loaded))
            \<longleftrightarrow> status (run_ops ops (new_session loaded)) = Waiting_for_input))"
  using run_ops_waiting_has_request [OF new_session_history_ok, of loaded ops]
    run_ops_request_iff_waiting [OF new_session_history_ok, of loaded ops]
  by (simp add: new_session_no_request)

text \<open>The theorem after initialisation, login and a fill that asks for input.\<close>

theorem pending_request_and_waiting_witness:
  "no_restart_while_pending scenario_ops (new_session (Loaded example_credentials example_email)) \<and>
   status waiting_session = Waiting_for_input \<and> require_human_input waiting_session"
  using pending_request_and_waiting [of scenario_ops "Loaded example_credentials example_email"]
    scenario_ops_no_restart
  by (simp add: scenario_ops_reach_waiting waiting_session_fields del: new_session.simps)

text \<open>
  C2 as stated fails when a login follows: the status is \<open>logged_in\<close> and the flag is
  still set.
\<close>

theorem login_keeps_pending_request:
  "status waiting_session = Waiting_for_input \<and> require_human_input waiting_session \<and>
   status (step (Login (agent_says ''Logged in.'')) waiting_session) = Logged_in \<and>
   require_human_input (step (Login (agent_says ''Logged in.'')) waiting_session) \<and>
   waiting_session = run_ops scenario_ops (new_session (Loaded example_credentials example_email))"
  by (simp add: login_with_agent_def waiting_session_fields example_lookups py_not_def agent_says_def
      scenario_ops_reach_waiting del: new_session.simps)

subsection \<open>Providing the human input\<close>

lemma step_waiting_has_computer:
  assumes "history_ok st" "status st = Waiting_for_input \<longrightarrow> computer st \<noteq> None"
  shows "status (step op st) = Waiting_for_input \<longrightarrow> computer (step op st) \<noteq> None"
proof (cases op)
  case (Initialize met)
  then show ?thesis using initialize_effect [of met st] by auto
next
  case (Login run)
  then show ?thesis
    using login_effect [of run st] login_keeps_computer [of run st] assms(2) by auto
next
  case (Fill_form run)
  show ?thesis
  proof (cases "computer st = None")
    case True
    then show ?thesis using Fill_form assms(2) by (simp add: fill_applicant_form_def)
  next
    case False
    then show ?thesis using Fill_form fill_applicant_form_effect [OF assms(1), of run] by simp
  qed
next
  case (Provide_human_input run v)
  show ?thesis
  proof (cases "computer st = None")
    case True
    then show ?thesis using Provide_human_input assms(2) by (simp add: provide_human_input_def)
  next
    case False
    then show ?thesis
      using Provide_human_input provide_human_input_effect [OF assms(1), of run v] by simp
  qed
next
  case (Run_full met run)
  then show ?thesis using run_automation_effect [OF assms(1), of met run] by simp
next
  case (Cleanup stopped)
  then show ?thesis using assms(2) by (simp add: cleanup_effect)
qed

lemma run_ops_waiting_has_computer:
  "history_ok st \<Longrightarrow> (status st = Waiting_for_input \<longrightarrow> computer st \<noteq> None) \<Longrightarrow>
   status (run_ops ops st) = Waiting_for_input \<longrightarrow> computer (run_ops ops st) \<noteq> None"
proof (induction ops arbitrary: st)
  case Nil
  then show ?case by (simp add: run_ops_def)
next
  case (Cons op ops)
  have "history_ok (step op st)" using Cons.prems(1) by (rule step_history_ok)
  moreover have "status (step op st) = Waiting_for_input \<longrightarrow> computer (step op st) \<noteq> None"
    using Cons.prems by (rule step_waiting_has_computer)
  ultimately show ?case using Cons.IH [of "step op st"] by (simp add: run_ops_def)
qed

lemma waiting_session_has_computer:
  "status (run_ops ops (new_session loaded)) = Waiting_for_input \<Longrightarrow>
   computer (run_ops ops (new_session loaded)) \<noteq> None"
  using run_ops_waiting_has_computer [OF new_session_history_ok, of loaded ops]
  by (simp add: new_session_no_request)

lemma map_of_dict_set: "map_of (dict_set k v d) = (map_of d)(k \<mapsto> v)"
  by (induction d) (auto simp: fun_eq_iff)

lemma keys_dict_set:
  "map fst (dict_set k v d) = (if k \<in> set (map fst d) then map fst d else map fst d @ [k])"
  by (induction d) force+

lemma human_inputs_text_entry:
  "human_inputs_text (before @ (field, x) # after) =
     (if before = [] then [] else human_inputs_text before @ ''\<newline>'') @
     field @ '': '' @ x @
     (if after = [] then [] else ''\<newline>'' @ human_inputs_text after)"
proof -
  have one: "human_inputs_text ((field, x) # after) =
      field @ '': '' @ x @ (if after = [] then [] else ''\<newline>'' @ human_inputs_text after)"
    by (cases after) (simp_all add: human_inputs_text_def)
  show ?thesis
  proof (cases "before = []")
    case True
    then show ?thesis using one by simp
  next
    case False
    then have "human_inputs_text (before @ (field, x) # after) =
        human_inputs_text before @ ''\<newline>'' @ human_inputs_text ((field, x) # after)"
      using join_append [of "map (\<lambda>(field, v). field @ '': '' @ v) before"
          "map (\<lambda>(field, v). field @ '': '' @ v) ((field, x) # after)" "''\<newline>''"]
      by (simp add: human_inputs_text_def)
    then show ?thesis using False one by simp
  qed
qed

lemma continuation_prompt_restates:
  "py_in email_body (continuation_prompt email_body text)"
  "py_in text (continuation_prompt email_body text)"
proof -
  show "py_in email_body (continuation_prompt email_body text)"
    unfolding continuation_prompt_def by (rule py_in_middle)
  have "py_in text ((continuation_head @ email_body @ continuation_middle) @ text @ continuation_tail)"
    by (rule py_in_middle)
  then show "py_in text (continuation_prompt email_body text)"
    by (simp add: continuation_prompt_def)
qed

lemma finish_keeps_collected:
  "human_inputs_collected (snd (provide_input_finish result st)) = human_inputs_collected st"
  "\<exists>later. status_history (snd (provide_input_finish result st)) = status_history st @ later"
  by (auto simp add: provide_input_finish_def request_human_input_def Let_def
      split: sum.splits simp del: py_in.simps)

lemma provide_human_input_stores:
  assumes "computer st \<noteq> None" "status st = Waiting_for_input"
  shows "human_inputs_collected (snd (provide_human_input run v st)) =
      dict_set (human_input_field st) v (human_inputs_collected st)"
    and "\<exists>later. status_history (snd (provide_human_input run v st)) =
      status_history st @ Filling_form # later"
proof -
  let ?st1 = "store_human_input v st"
  let ?st2 = "log ''Agent continuing form filling with human input...'' Info ?st1"
  let ?prompt = "continuation_prompt (case email_content ?st1 ''body'' of None \<Rightarrow> [] | Some b \<Rightarrow> b)
      (human_inputs_text (human_inputs_collected ?st1))"
  obtain r st3 where run: "run_with_safety_retry run (Prompt ?prompt) ?st2 = (r, st3)"
    by (cases "run_with_safety_retry run (Prompt ?prompt) ?st2")
  have st3: "human_inputs_collected st3 = dict_set (human_input_field st) v (human_inputs_collected st)"
    "status_history st3 = status_history st @ [Filling_form]"
    using run_with_safety_retry_session [of run "Prompt ?prompt" ?st2] run
    by (auto simp: store_human_input_def)
  have "human_inputs_collected (snd (provide_human_input run v st)) =
      dict_set (human_input_field st) v (human_inputs_collected st) \<and>
    (\<exists>later. status_history (snd (provide_human_input run v st)) =
      status_history st @ Filling_form # later)"
  proof (cases r)
    case (Inl e)
    then have "provide_human_input run v st =
      (Message False (str_exn e),
       log (''Error during form filling with human input: '' @ str_exn e) Err (set_status Error st3))"
      using assms run by (auto simp: provide_human_input_def Let_def)
    then show ?thesis using st3 by simp
  next
    case (Inr result)
    then have "provide_human_input run v st = provide_input_finish result st3"
      using assms run by (auto simp: provide_human_input_def Let_def)
    then show ?thesis using finish_keeps_collected [of result st3] st3 by auto
  qed
  then show "human_inputs_collected (snd (provide_human_input run v st)) =
      dict_set (human_input_field st) v (human_inputs_collected st)"
    and "\<exists>later. status_history (snd (provide_human_input run v st)) =
      status_history st @ Filling_form # later"
    by simp_all
qed

lemma human_input_stored:
  "computer st \<noteq> None \<and> status st = Waiting_for_input \<longrightarrow>
     (let st1 = store_human_input v st;
          email_body = (case email_content st ''body'' of None \<Rightarrow> [] | Some b \<Rightarrow> b);
          inputs_text = human_inputs_text (human_inputs_collected st1);
          prompt = continuation_prompt email_body inputs_text
      in map_of (human_inputs_collected st1) =
           (map_of (human_inputs_collected st))(human_input_field st \<mapsto> v) \<and>
         map fst (human_inputs_collected st1) =
           (if human_input_field st \<in> set (map fst (human_inputs_collected st))
            then map fst (human_inputs_collected st)
            else map fst (human_inputs_collected st) @ [human_input_field st]) \<and>
         \<not> require_human_input st1 \<and>
         status st1 = Filling_form \<and>
         py_in email_body prompt \<and>
         py_in inputs_text prompt \<and>
         (\<forall>before field x after.
            human_inputs_collected st1 = before @ (field, x) # after \<longrightarrow>
            inputs_text =
              (if before = [] then [] else human_inputs_text before @ ''\<newline>'') @
              field @ '': '' @ x @
              (if after = [] then [] else ''\<newline>'' @ human_inputs_text after)) \<and>
         (\<forall>result.
            run form_agent (Prompt prompt) 500 = Inr result \<and> to_input_list result \<noteq> [] \<and>
            \<not> truthy (dict_get (last (to_input_list result)) ''pending_safety_checks'') \<longrightarrow>
            provide_human_input run v st =
              provide_input_finish result
                (log ''Agent continuing form filling with human input...'' Info st1)) \<and>
         human_inputs_collected (snd (provide_human_input run v st)) = human_inputs_collected st1 \<and>
         (\<exists>later. status_history (snd (provide_human_input run v st)) =
            status_history st @ Filling_form # later))"
proof
  assume a: "computer st \<noteq> None \<and> status st = Waiting_for_input"
  let ?st1 = "store_human_input v st"
  let ?body = "case email_content st ''body'' of None \<Rightarrow> [] | Some b \<Rightarrow> b"
  let ?text = "human_inputs_text (human_inputs_collected ?st1)"
  let ?prompt = "continuation_prompt ?body ?text"
  have stored: "human_inputs_collected ?st1 = dict_set (human_input_field st) v (human_inputs_collected st)"
    "\<not> require_human_input ?st1" "status ?st1 = Filling_form" "email_content ?st1 = email_content st"
    by (simp_all add: store_human_input_def)
  have c1: "map_of (human_inputs_collected ?st1) =
      (map_of (human_inputs_collected st))(human_input_field st \<mapsto> v)"
    by (simp only: stored map_of_dict_set)
  have c2: "map fst (human_inputs_collected ?st1) =
      (if human_input_field st \<in> set (map fst (human_inputs_collected st))
       then map fst (human_inputs_collected st)
       else map fst (human_inputs_collected st) @ [human_input_field st])"
    by (simp only: stored keys_dict_set)
  have c3: "py_in ?body ?prompt" "py_in ?text ?prompt"
    by (rule continuation_prompt_restates)+
  have c4: "\<forall>before field x after.
      human_inputs_collected ?st1 = before @ (field, x) # after \<longrightarrow>
      ?text =
        (if before = [] then [] else human_inputs_text before @ ''\<newline>'') @
        field @ '': '' @ x @
        (if after = [] then [] else ''\<newline>'' @ human_inputs_text after)"
    using human_inputs_text_entry by metis
  have c5: "\<forall>result.
      run form_agent (Prompt ?prompt) 500 = Inr result \<and> to_input_list result \<noteq> [] \<and>
      \<not> truthy (dict_get (last (to_input_list result)) ''pending_safety_checks'') \<longrightarrow>
      provide_human_input run v st =
        provide_input_finish result
          (log ''Agent continuing form filling with human input...'' Info ?st1)"
  proof (intro allI impI)
    fix result
    assume r: "run form_agent (Prompt ?prompt) 500 = Inr result \<and> to_input_list result \<noteq> [] \<and>
      \<not> truthy (dict_get (last (to_input_list result)) ''pending_safety_checks'')"
    from a obtain c where c: "computer st = Some c" by auto
    have "run_with_safety_retry run (Prompt ?prompt)
        (log ''Agent continuing form filling with human input...'' Info ?st1) =
        (Inr result, log ''Agent continuing form filling with human input...'' Info ?st1)"
      using r by (simp add: run_with_safety_retry_def)
    then show "provide_human_input run v st =
        provide_input_finish result
          (log ''Agent continuing form filling with human input...'' Info ?st1)"
      using a c by (simp add: provide_human_input_def Let_def stored)
  qed
  have c6: "human_inputs_collected (snd (provide_human_input run v st)) = human_inputs_collected ?st1"
    "\<exists>later. status_history (snd (provide_human_input run v st)) =
        status_history st @ Filling_form # later"
    using a provide_human_input_stores [of st run v] stored by simp_all
  show "let st1 = store_human_input v st;
          email_body = (case email_content st ''body'' of None \<Rightarrow> [] | Some b \<Rightarrow> b);
          inputs_text = human_inputs_text (human_inputs_collected st1);
          prompt = continuation_prompt email_body inputs_text
      in map_of (human_inputs_collected st1) =
           (map_of (human_inputs_collected st))(human_input_field st \<mapsto> v) \<and>
         map fst (human_inputs_collected st1) =
           (if human_input_field st \<in> set (map fst (human_inputs_collected st))
            then map fst (human_inputs_collected st)
            else map fst (human_inputs_collected st) @ [human_input_field st]) \<and>
         \<not> require_human_input st1 \<and>
         status st1 = Filling_form \<and>
         py_in email_body prompt \<and>
         py_in inputs_text prompt \<and>
         (\<forall>before field x after.
            human_inputs_collected st1 = before @ (field, x) # after \<longrightarrow>
            inputs_text =
              (if before = [] then [] else human_inputs_text before @ ''\<newline>'') @
              field @ '': '' @ x @
              (if after = [] then [] else ''\<newline>'' @ human_inputs_text after)) \<and>
         (\<forall>result.
            run form_agent (Prompt prompt) 500 = Inr result \<and> to_input_list result \<noteq> [] \<and>
            \<not> truthy (dict_get (last (to_input_list result)) ''pending_safety_checks'') \<longrightarrow>
            provide_human_input run v st =
              provide_input_finish result
                (log ''Agent continuing form filling with human input...'' Info st1)) \<and>
         human_inputs_collected (snd (provide_human_input run v st)) = human_inputs_collected st1 \<and>
         (\<exists>later. status_history (snd (provide_human_input run v st)) =
            status_history st @ Filling_form # later)"
    unfolding Let_def
    using c1 c2 stored(2,3) c3 c4 c5 c6 by blast
qed

text \<open>
  C6. On every session that a sequence of operations has brought to \<open>waiting_for_input\<close>,
  \<open>provide_human_input\<close> binds the pending field to the value in the collected inputs
  (in place when the field is there already, at the end otherwise), clears the request
  flag and sets the status to \<open>filling_form\<close> before it runs the agent. The prompt it
  runs the agent on holds the email body and the text of the collected inputs, in which
  every entry has its line "field: value" between the lines of the entries before it and
  those after it; the answer to that prompt is what the method goes on with. The binding
  is still there when the method returns, and \<open>filling_form\<close> is the next status in the
  history.
\<close>

theorem human_input_is_stored_and_restated:
  "status (run_ops ops (new_session loaded)) = Waiting_for_input \<longrightarrow>
     (let st = run_ops ops (new_session loaded);
          st1 = store_human_input v st;
          email_body = (case email_content st ''body'' of None \<Rightarrow> [] | Some b \<Rightarrow> b);
          inputs_text = human_inputs_text (human_inputs_collected st1);
          prompt = continuation_prompt email_body inputs_text
      in map_of (human_inputs_collected st1) =
           (map_of (human_inputs_collected st))(human_input_field st \<mapsto> v) \<and>
         map fst (human_inputs_collected st1) =
           (if human_input_field st \<in> set (map fst (human_inputs_collected st))
            then map fst (human_inputs_collected st)
            else map fst (human_inputs_collected st) @ [human_input_field st]) \<and>
         \<not> require_human_input st1 \<and>
         status st1 = Filling_form \<and>
         py_in email_body prompt \<and>
         py_in inputs_text prompt \<and>
         (\<forall>before field x after.
            human_inputs_collected st1 = before @ (field, x) # after \<longrightarrow>
            inputs_text =
              (if before = [] then [] else human_inputs_text before @ ''\<newline>'') @
              field @ '': '' @ x @
              (if after = [] then [] else ''\<newline>'' @ human_inputs_text after)) \<and>
         (\<forall>result.
            run form_agent (Prompt prompt) 500 = Inr result \<and> to_input_list result \<noteq> [] \<and>
            \<not> truthy (dict_get (last (to_input_list result)) ''pending_safety_checks'') \<longrightarrow>
            provide_human_input run v st =
              provide_input_finish result
                (log ''Agent continuing form filling with human input...'' Info st1)) \<and>
         human_inputs_collected (snd (provide_human_input run v st)) = human_inputs_collected st1 \<and>
         (\<exists>later. status_history (snd (provide_human_input run v st)) =
            status_history st @ Filling_form # later))"
proof
  assume w: "status (run_ops ops (new_session loaded)) = Waiting_for_input"
  then have "computer (run_ops ops (new_session loaded)) \<noteq> None"
    by (rule waiting_session_has_computer)
  with w show "let st = run_ops ops (new_session loaded);
          st1 = store_human_input v st;
          email_body = (case email_content st ''body'' of None \<Rightarrow> [] | Some b \<Rightarrow> b);
          inputs_text = human_inputs_text (human_inputs_collected st1);
          prompt = continuation_prompt email_body inputs_text
      in map_of (human_inputs_collected st1) =
           (map_of (human_inputs_collected st))(human_input_field st \<mapsto> v) \<and>
         map fst (human_inputs_collected st1) =
           (if human_input_field st \<in> set (map fst (human_inputs_collected st))
            then map fst (human_inputs_collected st)
            else map fst (human_inputs_collected st) @ [human_input_field st]) \<and>
         \<not> require_human_input st1 \<and>
         status st1 = Filling_form \<and>
         py_in email_body prompt \<and>
         py_in inputs_text prompt \<and>
         (\<forall>before field x after.
            human_inputs_collected st1 = before @ (field, x) # after \<longrightarrow>
            inputs_text =
              (if before = [] then [] else human_inputs_text before @ ''\<newline>'') @
              field @ '': '' @ x @
              (if after = [] then [] else ''\<newline>'' @ human_inputs_text after)) \<and>
         (\<forall>result.
            run form_agent (Prompt prompt) 500 = Inr result \<and> to_input_list result \<noteq> [] \<and>
            \<not> truthy (dict_get (last (to_input_list result)) ''pending_safety_checks'') \<longrightarrow>
            provide_human_input run v st =
              provide_input_finish result
                (log ''Agent continuing form filling with human input...'' Info st1)) \<and>
         human_inputs_collected (snd (provide_human_input run v st)) = human_inputs_collected st1 \<and>
         (\<exists>later. status_history (snd (provide_human_input run v st)) =
            status_history st @ Filling_form # later)"
    using human_input_stored [of "run_ops ops (new_session loaded)" v run]
    by (simp add: Let_def del: new_session.simps py_in.simps)
qed

text \<open>The theorem in the end-to-end scenario, with "Plumbing" for the industry.\<close>

theorem human_input_is_stored_and_restated_witness:
  "status waiting_session = Waiting_for_input \<and>
   human_input_field waiting_session = ''Industry'' \<and>
   human_inputs_collected (snd (provide_human_input (agent_says ''Form submitted successfully.'')
      ''Plumbing'' waiting_session)) = [(''Industry'', ''Plumbing'')] \<and>
   \<not> require_human_input (store_human_input ''Plumbing'' waiting_session) \<and>
   status (store_human_input ''Plumbing'' waiting_session) = Filling_form \<and>
   py_in ''Acme Corp, 123 Main St''
     (continuation_prompt ''Acme Corp, 123 Main St'' (human_inputs_text [(''Industry'', ''Plumbing'')])) \<and>
   py_in (human_inputs_text [(''Industry'', ''Plumbing'')])
     (continuation_prompt ''Acme Corp, 123 Main St'' (human_inputs_text [(''Industry'', ''Plumbing'')])) \<and>
   human_inputs_text [(''Industry'', ''Plumbing'')] = ''Industry: Plumbing''"
proof -
  have stored: "human_inputs_collected (store_human_input ''Plumbing'' waiting_session) =
      [(''Industry'', ''Plumbing'')]"
    by (simp add: store_human_input_def waiting_session_fields)
  have rendered: "human_inputs_text [(''Industry'', ''Plumbing'')] = ''Industry: Plumbing''"
    by (simp add: human_inputs_text_def)
  show ?thesis
    using human_input_is_stored_and_restated
      [of scenario_ops "Loaded example_credentials example_email" "''Plumbing''"
          "agent_says ''Form submitted successfully.''"]
    unfolding Let_def scenario_ops_reach_waiting stored
    by (simp add: waiting_session_fields example_lookups rendered del: py_in.simps)
qed

end
